theory Spec2Isabelle
  imports Main
begin

section \<open>The assistant chat session: data model\<close>

text \<open>
  The component under study is the \<open>Assistant\<close> React component: a chat history, a
  loading flag, a WebSocket with reconnection, and two kinds of timers. Its React state
  (\<open>useState\<close>) and its references (\<open>useRef\<close>) are the fields of one record; every
  handler of the component is a function from the state to the new state. Wall-clock
  time (\<open>Date.now()\<close>) is the argument \<open>now\<close> of each handler, in milliseconds.
\<close>

datatype MessageType = user | assistant | status | intermediate

text \<open>
  \<open>interface Message\<close>. The optional flag \<open>isProcessing?: boolean\<close> is \<open>None\<close> where
  the source leaves it out.
\<close>

record Message =
  msg_id :: string
  msg_type :: MessageType
  content :: string
  timestamp :: nat
  isProcessing :: "bool option"

datatype ConnectionStatus = connecting | connected | disconnected | conn_error

text \<open>
  A number as \<open>JSON.parse\<close> returns it, by what the component reads of it. The
  component tests a number for truthiness and interpolates it into a template literal,
  so a number is either zero (the only falsy number a JSON text yields; its text is
  \<open>0\<close>), or not zero, with the text that the number-to-string conversion of the run
  time gives for it: decimal digits, a fraction, or an exponent form such as \<open>1e+21\<close>.
\<close>

datatype JSNumber = JSZero | JSNonZero string

text \<open>
  \<open>interface WebSocketMessage\<close>, the parsed inbound frame. Each field of the interface
  is optional at run time; the tag \<open>type\<close> is any string, as the \<open>default\<close> branch of
  the router expects. The field \<open>extra\<close> holds every property the interface does not
  name (among them \<open>data?: any\<close>), as pairs of a key and its raw text.
\<close>

record WebSocketMessage =
  frame_type :: "string option"
  message :: "string option"
  answer :: "string option"
  error :: "string option"
  results_count :: "JSNumber option"
  extra :: "(string \<times> string) list"

text \<open>
  What \<open>JSON.parse\<close> returns: \<open>null\<close>, a scalar (boolean, number, string), an array, or
  an object. Only an object can carry a \<open>type\<close> property.
\<close>

datatype JSONValue = JNull | JScalar | JArray | JObject WebSocketMessage

text \<open>\<open>WebSocket.readyState\<close>.\<close>

datatype ReadyState = CONNECTING | OPEN | CLOSING | CLOSED

text \<open>
  The three callbacks the component hands to \<open>setTimeout\<close>: the 30 second query
  timeout, the reconnection, and the delayed "Processing your query..." turn.
\<close>

datatype TimerCallback = LoadingTimeout | Reconnect | ProcessingStatus

record Timer =
  timer_id :: nat
  due :: nat
  callback :: TimerCallback

record Toast =
  title :: string
  description :: string
  destructive :: bool
  duration :: nat

datatype LogLevel = LogInfo | LogWarn | LogError

record OutboundFrame =
  out_type :: string
  query :: string
  user_id :: string

record State =
  messages :: "Message list"
  inputValue :: string
  isLoading :: bool
  connectionStatus :: ConnectionStatus
  websocketRef :: "ReadyState option"
  reconnectTimeoutRef :: "nat option"
  loadingTimeoutRef :: "nat option"
  reconnectAttempts :: nat
  isUserAuthenticated :: bool
  USER_ID :: string
  timers :: "Timer list"
  nextTimerId :: nat
  toasts :: "Toast list"
  console :: "(LogLevel \<times> string) list"
  sent :: "OutboundFrame list"

section \<open>Run-time primitives\<close>

text \<open>
  Decimal text of an integer. \<open>Number.prototype.toString\<close> gives this text for every
  integer that the run time holds exactly, that is up to \<open>Number.MAX_SAFE_INTEGER\<close>
  in magnitude; \<open>Date.now()\<close>, the delays and the attempt counter are such integers.
\<close>

definition digit :: "nat \<Rightarrow> char" where
  "digit d = ''0123456789'' ! (d mod 10)"

function showNat :: "nat \<Rightarrow> string" where
  "showNat n = (if n < 10 then [digit n] else showNat (n div 10) @ [digit n])"
  by pat_completeness auto
termination
  by (relation "measure (\<lambda>n. n)") auto

declare showNat.simps [simp del]

definition showInt :: "int \<Rightarrow> string" where
  "showInt i = (if i < 0 then CHR ''-'' # showNat (nat (- i)) else showNat (nat i))"

text \<open>\<open>Number.MAX_SAFE_INTEGER\<close>, which is \<open>2 ^ 53 - 1\<close>.\<close>

definition maxSafeInteger :: int where
  "maxSafeInteger = 9007199254740991"

text \<open>
  The number that an integer literal of a JSON text parses to, for an integer the run
  time holds exactly: zero, or a number whose text is the decimal text. An integer
  beyond that range is rounded by the parser and may print in exponent form; no value
  is given for it here (\<open>None\<close>), it is some \<open>JSNonZero\<close> with the text of the run time.
\<close>

definition ofSafeInteger :: "int \<Rightarrow> JSNumber option" where
  "ofSafeInteger n =
     (if \<bar>n\<bar> \<le> maxSafeInteger
      then Some (if n = 0 then JSZero else JSNonZero (showInt n))
      else None)"

text \<open>
  \<open>String.prototype.trim\<close>. The characters of a string are the code units below 256;
  among them \<open>trim\<close> strips tab, line feed, vertical tab, form feed, carriage return,
  space and the no-break space \<open>U+00A0\<close>.
\<close>

definition isWhitespace :: "char \<Rightarrow> bool" where
  "isWhitespace c =
     (c \<in> set [CHR 0x09, CHR 0x0A, CHR 0x0B, CHR 0x0C, CHR 0x0D, CHR '' '', CHR 0xA0])"

definition trim :: "string \<Rightarrow> string" where
  "trim s = rev (dropWhile isWhitespace (rev (dropWhile isWhitespace s)))"

text \<open>
  \<open>a || b\<close> on an optional string: the left operand when it is present and not empty.
\<close>

fun orElse :: "string option \<Rightarrow> string \<Rightarrow> string" where
  "orElse None d = d"
| "orElse (Some s) d = (if s = [] then d else s)"

definition setTimeout :: "TimerCallback \<Rightarrow> nat \<Rightarrow> nat \<Rightarrow> State \<Rightarrow> nat \<times> State" where
  "setTimeout cb delay now s =
     (nextTimerId s,
      s\<lparr>timers := timers s @ [\<lparr>timer_id = nextTimerId s, due = now + delay, callback = cb\<rparr>],
        nextTimerId := Suc (nextTimerId s)\<rparr>)"

definition clearTimeout :: "nat \<Rightarrow> State \<Rightarrow> State" where
  "clearTimeout t s = s\<lparr>timers := filter (\<lambda>x. timer_id x \<noteq> t) (timers s)\<rparr>"

text \<open>\<open>if (ref.current) clearTimeout(ref.current)\<close>.\<close>

definition clearRef :: "nat option \<Rightarrow> State \<Rightarrow> State" where
  "clearRef r s = (case r of None \<Rightarrow> s | Some t \<Rightarrow> clearTimeout t s)"

definition toast :: "string \<Rightarrow> string \<Rightarrow> bool \<Rightarrow> nat \<Rightarrow> State \<Rightarrow> State" where
  "toast t d v n s =
     s\<lparr>toasts := toasts s @ [\<lparr>title = t, description = d, destructive = v, duration = n\<rparr>]\<rparr>"

definition logTo :: "LogLevel \<Rightarrow> string \<Rightarrow> State \<Rightarrow> State" where
  "logTo l t s = s\<lparr>console := console s @ [(l, t)]\<rparr>"

definition setMessages :: "(Message list \<Rightarrow> Message list) \<Rightarrow> State \<Rightarrow> State" where
  "setMessages f s = s\<lparr>messages := f (messages s)\<rparr>"

section \<open>Connection handling\<close>

definition maxReconnectAttempts :: nat where
  "maxReconnectAttempts = 5"

text \<open>
  \<open>connectWebSocket\<close>. The constructor \<open>new WebSocket(wsUrl)\<close> is taken to succeed
  (the URL is well formed), so the new socket starts in \<open>CONNECTING\<close>.
\<close>

definition connectWebSocket :: "State \<Rightarrow> State" where
  "connectWebSocket s =
     (if \<not> isUserAuthenticated s then
        (logTo LogInfo ''User not authenticated, skipping WebSocket connection'' s)
          \<lparr>connectionStatus := disconnected\<rparr>
      else if websocketRef s = Some OPEN \<or> websocketRef s = Some CONNECTING then s
      else
        (logTo LogInfo ''Using user email as ID:''
          (logTo LogInfo ''Attempting WebSocket connection to:''
            (s\<lparr>connectionStatus := connecting\<rparr>)))
          \<lparr>websocketRef := Some CONNECTING\<rparr>)"

definition onopen :: "State \<Rightarrow> State" where
  "onopen s =
     toast ''Connected'' ''WebSocket connection established successfully.'' False 3000
       (logTo LogInfo ''WebSocket connected''
         (s\<lparr>connectionStatus := connected, reconnectAttempts := 0\<rparr>))"

definition onerror :: "State \<Rightarrow> State" where
  "onerror s =
     toast ''Connection Error'' ''Failed to connect to the assistant service. Retrying...''
       True 5000
       (logTo LogError ''WebSocket error:'' (s\<lparr>connectionStatus := conn_error\<rparr>))"

text \<open>The expression \<open>Math.min(1000 * Math.pow(2, attempts), 30000)\<close> of the close handler.\<close>

definition reconnectDelay :: "nat \<Rightarrow> nat" where
  "reconnectDelay attempts = min (1000 * 2 ^ attempts) 30000"

text \<open>\<open>msg.isProcessing\<close> read as a condition.\<close>

definition processing :: "Message \<Rightarrow> bool" where
  "processing m = (isProcessing m = Some True)"

definition onclose :: "nat \<Rightarrow> nat \<Rightarrow> State \<Rightarrow> State" where
  "onclose now code s =
     (let s1 = s\<lparr>connectionStatus := disconnected, isLoading := False\<rparr>;
          s2 = logTo LogInfo ''WebSocket disconnected:'' s1;
          s3 = setMessages (filter (\<lambda>msg. \<not> processing msg)) s2;
          s4 = (if code \<noteq> 1000 then
                  toast ''Connection Lost''
                    ''WebSocket connection was lost. Attempting to reconnect...'' True 3000 s3
                else s3)
      in if code \<noteq> 1000 \<and> reconnectAttempts s4 < maxReconnectAttempts then
           (let delay = reconnectDelay (reconnectAttempts s4);
                s5 = logTo LogInfo
                       (''Reconnecting in '' @ showNat delay @ ''ms (attempt '' @
                        showNat (reconnectAttempts s4 + 1) @ ''/'' @
                        showNat maxReconnectAttempts @ '')'') s4;
                (t, s6) = setTimeout Reconnect delay now s5
            in s6\<lparr>reconnectTimeoutRef := Some t\<rparr>)
         else if reconnectAttempts s4 \<ge> maxReconnectAttempts then
           toast ''Connection Failed''
             ''Could not reconnect to the server. Please refresh the page or try again later.''
             True 10000 s4
         else s4)"

section \<open>The message router\<close>

text \<open>
  The guard \<open>!data || typeof data !== 'object' || !data.type\<close>: only an object whose
  \<open>type\<close> is present and not the empty string passes.
\<close>

fun validFrame :: "JSONValue \<Rightarrow> (string \<times> WebSocketMessage) option" where
  "validFrame (JObject d) =
     (case frame_type d of
        None \<Rightarrow> None
      | Some t \<Rightarrow> if t = [] then None else Some (t, d))"
| "validFrame _ = None"

text \<open>
  \<open>data.results_count ? `Found ${data.results_count} matching receipts` : (data.message ||
  'Processing your request...')\<close>: an absent count and the count zero are both falsy;
  any other count is interpolated with the text the run time gives for it.
\<close>

definition intermediateMessage :: "WebSocketMessage \<Rightarrow> string" where
  "intermediateMessage d =
     (case results_count d of
        Some (JSNonZero t) \<Rightarrow> ''Found '' @ t @ '' matching receipts''
      | Some JSZero \<Rightarrow> orElse (message d) ''Processing your request...''
      | None \<Rightarrow> orElse (message d) ''Processing your request...'')"

definition resultMessage :: "WebSocketMessage \<Rightarrow> string" where
  "resultMessage d = orElse (answer d) (orElse (message d) ''No response received'')"

definition errorMessage :: "WebSocketMessage \<Rightarrow> string" where
  "errorMessage d = orElse (error d) (orElse (message d) ''An unknown error occurred'')"

definition handleWebSocketMessage :: "nat \<Rightarrow> JSONValue \<Rightarrow> State \<Rightarrow> State" where
  "handleWebSocketMessage now data s0 =
     (let s = logTo LogInfo ''Received WebSocket message:'' s0 in
      case validFrame data of
        None \<Rightarrow> logTo LogError ''Invalid WebSocket message format:'' s
      | Some (t, d) \<Rightarrow>
          (let messageId = showNat now in
           if t = ''connection'' then
             logTo LogInfo ''WebSocket connection confirmed by server'' s
           else if t = ''status'' then
             setMessages (\<lambda>prev. prev @
               [\<lparr>msg_id = messageId, msg_type = status,
                 content = orElse (message d) ''Processing...'',
                 timestamp = now, isProcessing = Some True\<rparr>]) s
           else if t = ''intermediate'' then
             setMessages (\<lambda>prev. filter (\<lambda>msg. msg_type msg \<noteq> intermediate) prev @
               [\<lparr>msg_id = messageId, msg_type = intermediate,
                 content = intermediateMessage d,
                 timestamp = now, isProcessing = Some True\<rparr>]) s
           else if t = ''result'' then
             clearRef (loadingTimeoutRef s)
               ((setMessages (\<lambda>prev. filter (\<lambda>msg. \<not> processing msg) prev @
                  [\<lparr>msg_id = messageId, msg_type = assistant,
                    content = resultMessage d,
                    timestamp = now, isProcessing = None\<rparr>]) s)
                \<lparr>isLoading := False\<rparr>)
           else if t = ''error'' then
             toast ''Query Error'' (errorMessage d) True 5000
               (clearRef (loadingTimeoutRef s)
                 ((setMessages (\<lambda>prev. filter (\<lambda>msg. \<not> processing msg) prev @
                    [\<lparr>msg_id = messageId, msg_type = assistant,
                      content = ''Sorry, I encountered an error: '' @ errorMessage d @
                                ''. Please try again.'',
                      timestamp = now, isProcessing = None\<rparr>]) s)
                  \<lparr>isLoading := False\<rparr>))
           else logTo LogWarn ''Unknown WebSocket message type:'' s))"

text \<open>
  \<open>onmessage\<close>: the event carries what \<open>JSON.parse(event.data)\<close> makes of the raw
  text, \<open>None\<close> when it throws. The \<open>catch\<close> branch logs and raises a toast.
\<close>

definition onmessage :: "nat \<Rightarrow> JSONValue option \<Rightarrow> State \<Rightarrow> State" where
  "onmessage now parsed s =
     (case parsed of
        Some data \<Rightarrow> handleWebSocketMessage now data s
      | None \<Rightarrow>
          toast ''Message Error'' ''Received malformed response from server.'' True 3000
            (logTo LogInfo ''Raw message data:''
              (logTo LogError ''Error parsing WebSocket message:'' s)))"

section \<open>Timers and the submit operation\<close>

definition timeoutText :: string where
  "timeoutText = ''Request timed out. The server might be busy. Please try again.''"

text \<open>The callback of the 30 second timer set by \<open>handleSendMessage\<close>.\<close>

definition loadingTimeoutCallback :: "nat \<Rightarrow> State \<Rightarrow> State" where
  "loadingTimeoutCallback now s =
     toast ''Request Timeout'' ''The server is taking too long to respond. Please try again.''
       True 5000
       (setMessages (\<lambda>prev. filter (\<lambda>msg. \<not> processing msg) prev @
          [\<lparr>msg_id = showNat now, msg_type = assistant, content = timeoutText,
            timestamp = now, isProcessing = None\<rparr>])
         (s\<lparr>isLoading := False\<rparr>))"

text \<open>The callback of the reconnection timer set by the close handler.\<close>

definition reconnectCallback :: "State \<Rightarrow> State" where
  "reconnectCallback s = connectWebSocket (s\<lparr>reconnectAttempts := Suc (reconnectAttempts s)\<rparr>)"

text \<open>The callback of the 100 ms timer set after a query was sent.\<close>

definition processingStatusCallback :: "nat \<Rightarrow> State \<Rightarrow> State" where
  "processingStatusCallback now s =
     setMessages (\<lambda>prev. prev @
       [\<lparr>msg_id = showNat (now + 1), msg_type = status, content = ''Processing your query...'',
         timestamp = now, isProcessing = Some True\<rparr>]) s"

fun runCallback :: "TimerCallback \<Rightarrow> nat \<Rightarrow> State \<Rightarrow> State" where
  "runCallback LoadingTimeout now s = loadingTimeoutCallback now s"
| "runCallback Reconnect now s = reconnectCallback s"
| "runCallback ProcessingStatus now s = processingStatusCallback now s"

text \<open>
  A timer fires once, not before it is due, and only while it is pending; firing takes
  it off the pending list and runs its callback.
\<close>

definition fireTimer :: "nat \<Rightarrow> nat \<Rightarrow> State \<Rightarrow> State" where
  "fireTimer now t s =
     (case find (\<lambda>x. timer_id x = t) (timers s) of
        None \<Rightarrow> s
      | Some x \<Rightarrow> if now < due x then s else runCallback (callback x) now (clearTimeout t s))"

text \<open>
  \<open>websocketRef.current?.send(...)\<close>: nothing happens without a socket; a socket that
  is still \<open>CONNECTING\<close> throws (\<open>None\<close>); an open socket transmits; a closing or closed
  socket discards the data.
\<close>

definition wsSend :: "OutboundFrame \<Rightarrow> State \<Rightarrow> State option" where
  "wsSend f s =
     (case websocketRef s of
        None \<Rightarrow> Some s
      | Some CONNECTING \<Rightarrow> None
      | Some OPEN \<Rightarrow> Some (s\<lparr>sent := sent s @ [f]\<rparr>)
      | Some _ \<Rightarrow> Some s)"

definition handleSendMessage :: "nat \<Rightarrow> State \<Rightarrow> State" where
  "handleSendMessage now s =
     (if trim (inputValue s) = [] \<or> connectionStatus s \<noteq> connected \<or> \<not> isUserAuthenticated s
      then s
      else
        (let userMessage = \<lparr>msg_id = showNat now, msg_type = user, content = inputValue s,
                             timestamp = now, isProcessing = None\<rparr>;
             q = inputValue s;
             s1 = (setMessages (\<lambda>prev. prev @ [userMessage]) s)
                    \<lparr>inputValue := [], isLoading := True\<rparr>;
             s2 = clearRef (loadingTimeoutRef s1) s1;
             (t, s3) = setTimeout LoadingTimeout 30000 now s2;
             s4 = s3\<lparr>loadingTimeoutRef := Some t\<rparr>;
             s5 = logTo LogInfo ''User ID (email) included in query:''
                    (logTo LogInfo ''Sending WebSocket message:'' s4)
         in case wsSend \<lparr>out_type = ''query'', query = q, user_id = USER_ID s5\<rparr> s5 of
              Some s6 \<Rightarrow> snd (setTimeout ProcessingStatus 100 now s6)
            | None \<Rightarrow>
                toast ''Send Error'' ''Failed to send message. Please check your connection.''
                  True 5000
                  (clearRef (loadingTimeoutRef s5)
                    ((logTo LogError ''Error sending message:'' s5)\<lparr>isLoading := False\<rparr>))))"

section \<open>The controls of the page\<close>

definition greeting :: string where
  "greeting = ''Hi! I'm your financial assistant. You can ask me about your receipts, bills, spending patterns, or any financial questions.''"

definition clearChat :: "nat \<Rightarrow> State \<Rightarrow> State" where
  "clearChat now s =
     s\<lparr>messages := [\<lparr>msg_id = ''1'', msg_type = assistant, content = greeting,
                      timestamp = now, isProcessing = None\<rparr>]\<rparr>"

definition suggestedQueries :: "string list" where
  "suggestedQueries =
     [''Show me all expenses'', ''What did I spend on food?'', ''Find all receipts'',
      ''What are my total expenses?'', ''Show me expenses by category'',
      ''Find receipts over 100'']"

text \<open>The \<open>disabled\<close> attribute of the send button and of the text input.\<close>

definition sendDisabled :: "State \<Rightarrow> bool" where
  "sendDisabled s =
     (trim (inputValue s) = [] \<or> isLoading s \<or> connectionStatus s \<noteq> connected \<or>
      \<not> isUserAuthenticated s)"

definition inputDisabled :: "State \<Rightarrow> bool" where
  "inputDisabled s =
     (isLoading s \<or> connectionStatus s \<noteq> connected \<or> \<not> isUserAuthenticated s)"

text \<open>The suggested queries and the clear button are rendered for a history of one turn.\<close>

definition suggestionsShown :: "State \<Rightarrow> bool" where
  "suggestionsShown s = (length (messages s) = 1)"

definition reconnectShown :: "State \<Rightarrow> bool" where
  "reconnectShown s =
     (isUserAuthenticated s \<and>
      (connectionStatus s = disconnected \<or> connectionStatus s = conn_error))"

text \<open>
  Everything that can happen to the mounted component: the user acts on a control, the
  socket reports, or a timer fires. A control that is disabled or not rendered does
  nothing. The socket reports its new \<open>readyState\<close> with \<open>open\<close> and \<open>close\<close>.
\<close>

datatype Event =
    ClickSend
  | PressEnter
  | ChangeInput string
  | ClickSuggestedQuery nat
  | ClickClearChat
  | ClickReconnect
  | SocketOpen
  | SocketMessage "JSONValue option"
  | SocketClose nat
  | SocketError
  | TimerFires nat

fun step :: "nat \<Rightarrow> Event \<Rightarrow> State \<Rightarrow> State" where
  "step now ClickSend s = (if sendDisabled s then s else handleSendMessage now s)"
| "step now PressEnter s = (if inputDisabled s then s else handleSendMessage now s)"
| "step now (ChangeInput v) s = (if inputDisabled s then s else s\<lparr>inputValue := v\<rparr>)"
| "step now (ClickSuggestedQuery i) s =
     (if suggestionsShown s \<and> i < length suggestedQueries
      then s\<lparr>inputValue := suggestedQueries ! i\<rparr> else s)"
| "step now ClickClearChat s = (if suggestionsShown s then clearChat now s else s)"
| "step now ClickReconnect s =
     (if reconnectShown s then connectWebSocket (s\<lparr>reconnectAttempts := 0\<rparr>) else s)"
| "step now SocketOpen s = onopen (s\<lparr>websocketRef := Some OPEN\<rparr>)"
| "step now (SocketMessage parsed) s = onmessage now parsed s"
| "step now (SocketClose code) s = onclose now code (s\<lparr>websocketRef := Some CLOSED\<rparr>)"
| "step now SocketError s = onerror s"
| "step now (TimerFires t) s = fireTimer now t s"

definition initialGreeting :: string where
  "initialGreeting = ''Hi! I'm your financial assistant. You can ask me about your receipts, bills, spending patterns, or any financial questions. Try asking 'How much did I spend on food last month?' or 'Show me my biggest expenses'.''"

text \<open>The state of the first render, and the effect that runs after it.\<close>

definition initialState :: "bool \<Rightarrow> string \<Rightarrow> nat \<Rightarrow> State" where
  "initialState auth uid now =
     \<lparr>messages = [\<lparr>msg_id = ''1'', msg_type = assistant, content = initialGreeting,
                    timestamp = now, isProcessing = None\<rparr>],
      inputValue = [], isLoading = False, connectionStatus = disconnected,
      websocketRef = None, reconnectTimeoutRef = None, loadingTimeoutRef = None,
      reconnectAttempts = 0, isUserAuthenticated = auth, USER_ID = uid,
      timers = [], nextTimerId = 1, toasts = [], console = [], sent = []\<rparr>"

definition mount :: "State \<Rightarrow> State" where
  "mount s =
     (if isUserAuthenticated s then connectWebSocket s
      else s\<lparr>connectionStatus := disconnected\<rparr>)"

text \<open>
  The states the component can be in while it stays mounted for one user: after
  mounting, and after any event. The socket events and the timer events are not tied to
  the state of the socket or to the order of time, so every state the running component
  reaches is among them.
\<close>

inductive reachable :: "State \<Rightarrow> bool" where
  reach_init: "reachable (mount (initialState auth uid now))"
| reach_step: "reachable s \<Longrightarrow> reachable (step now e s)"

text \<open>Running a list of timed events, oldest first.\<close>

fun run :: "(nat \<times> Event) list \<Rightarrow> State \<Rightarrow> State" where
  "run [] s = s"
| "run ((now, e) # es) s = run es (step now e s)"

section \<open>Notions used in the statements\<close>

text \<open>What is left of the pending timers after \<open>if (ref.current) clearTimeout(ref.current)\<close>.\<close>

definition cancelled :: "nat option \<Rightarrow> Timer list \<Rightarrow> Timer list" where
  "cancelled r ts = (case r of None \<Rightarrow> ts | Some t \<Rightarrow> filter (\<lambda>x. timer_id x \<noteq> t) ts)"

text \<open>The frame kinds the router has a \<open>case\<close> for.\<close>

definition knownKinds :: "string list" where
  "knownKinds = [''connection'', ''status'', ''intermediate'', ''result'', ''error'']"

text \<open>The two notifications of the close handler.\<close>

definition connectionLost :: Toast where
  "connectionLost =
     \<lparr>title = ''Connection Lost'',
      description = ''WebSocket connection was lost. Attempting to reconnect...'',
      destructive = True, duration = 3000\<rparr>"

definition connectionFailed :: Toast where
  "connectionFailed =
     \<lparr>title = ''Connection Failed'',
      description = ''Could not reconnect to the server. Please refresh the page or try again later.'',
      destructive = True, duration = 10000\<rparr>"

text \<open>
  A provisional turn is one of role \<open>status\<close> or \<open>intermediate\<close>. A history is
  \<open>flagged\<close> when the turns that carry \<open>isProcessing = true\<close> are exactly its provisional
  turns.
\<close>

definition provisional :: "Message \<Rightarrow> bool" where
  "provisional m = (msg_type m = status \<or> msg_type m = intermediate)"

definition flagged :: "Message list \<Rightarrow> bool" where
  "flagged ms = list_all (\<lambda>m. processing m = provisional m) ms"

text \<open>
  The pending timers are in order when their identifiers are distinct and already
  issued, and the only pending query timeout is the one \<open>loadingTimeoutRef\<close> holds.
\<close>

definition isLoadingTimer :: "Timer \<Rightarrow> bool" where
  "isLoadingTimer x = (callback x = LoadingTimeout)"

definition timersOk :: "State \<Rightarrow> bool" where
  "timersOk s =
     (distinct (map timer_id (timers s)) \<and>
      list_all (\<lambda>x. timer_id x < nextTimerId s \<and>
                     (isLoadingTimer x \<longrightarrow> loadingTimeoutRef s = Some (timer_id x))) (timers s))"

text \<open>The number of turns that are not marked as processing.\<close>

definition settled :: "Message list \<Rightarrow> nat" where
  "settled ms = length (filter (\<lambda>msg. \<not> processing msg) ms)"

text \<open>
  What holds in every state the component reaches: the history is flagged, the timers
  are in order, a connected session has an open socket, the greeting or its successors
  are never removed, and while a query is loading the input is empty and the history
  has at least two settled turns.
\<close>

definition sessionInv :: "State \<Rightarrow> bool" where
  "sessionInv s =
     (flagged (messages s) \<and> timersOk s \<and>
      (connectionStatus s = connected \<longrightarrow> websocketRef s = Some OPEN) \<and>
      1 \<le> settled (messages s) \<and>
      (isLoading s \<longrightarrow> inputValue s = [] \<and> 2 \<le> settled (messages s)))"

text \<open>
  A concrete session, for the examples: the user \<open>u@example.com\<close> mounts the page at time
  0, the socket opens at 5, the user types \<open>hi\<close> at 10 and clicks send at 20.
\<close>

definition exampleStart :: State where
  "exampleStart = mount (initialState True ''u@example.com'' 0)"

definition exampleSession :: State where
  "exampleSession = run [(5, SocketOpen), (10, ChangeInput ''hi''), (20, ClickSend)] exampleStart"

text \<open>The delivery of a status or an intermediate frame.\<close>

fun progressFrame :: "Event \<Rightarrow> bool" where
  "progressFrame (SocketMessage (Some (JObject d))) =
     (frame_type d = Some ''status'' \<or> frame_type d = Some ''intermediate'')"
| "progressFrame _ = False"

text \<open>The turns the router appends for a result or error, a status and an intermediate frame.\<close>

definition terminalTurn :: "nat \<Rightarrow> WebSocketMessage \<Rightarrow> Message" where
  "terminalTurn now d =
     \<lparr>msg_id = showNat now, msg_type = assistant,
      content = (if frame_type d = Some ''result'' then resultMessage d
                 else ''Sorry, I encountered an error: '' @ errorMessage d @
                      ''. Please try again.''),
      timestamp = now, isProcessing = None\<rparr>"

definition statusTurn :: "nat \<Rightarrow> WebSocketMessage \<Rightarrow> Message" where
  "statusTurn now d =
     \<lparr>msg_id = showNat now, msg_type = status, content = orElse (message d) ''Processing...'',
      timestamp = now, isProcessing = Some True\<rparr>"

definition intermediateTurn :: "nat \<Rightarrow> WebSocketMessage \<Rightarrow> Message" where
  "intermediateTurn now d =
     \<lparr>msg_id = showNat now, msg_type = intermediate, content = intermediateMessage d,
      timestamp = now, isProcessing = Some True\<rparr>"

text \<open>
  An inbound frame the router has no case for: text that does not parse, a value that
  fails the validation, or an object whose \<open>type\<close> is not one of the known kinds.
\<close>

definition droppedFrame :: "JSONValue option \<Rightarrow> bool" where
  "droppedFrame parsed =
     (case parsed of
        None \<Rightarrow> True
      | Some data \<Rightarrow>
          (case validFrame data of None \<Rightarrow> True | Some (t, d) \<Rightarrow> t \<notin> set knownKinds))"

text \<open>A frame that has only its \<open>type\<close>, for the examples.\<close>

definition frame :: "string \<Rightarrow> WebSocketMessage" where
  "frame t = \<lparr>frame_type = Some t, message = None, answer = None, error = None,
              results_count = None, extra = []\<rparr>"

text \<open>The turn the query timeout appends.\<close>

definition timeoutTurn :: "nat \<Rightarrow> Message" where
  "timeoutTurn now =
     \<lparr>msg_id = showNat now, msg_type = assistant, content = timeoutText,
      timestamp = now, isProcessing = None\<rparr>"

text \<open>
  An event that leaves the pending timer \<open>t\<close> alone: anything but a submit, a result or
  error frame, and the firing of \<open>t\<close> itself.
\<close>

fun quiet :: "nat \<Rightarrow> Event \<Rightarrow> bool" where
  "quiet t ClickSend = False"
| "quiet t PressEnter = False"
| "quiet t (SocketMessage (Some data)) =
     (case validFrame data of
        None \<Rightarrow> True
      | Some (k, d) \<Rightarrow> k \<noteq> ''result'' \<and> k \<noteq> ''error'')"
| "quiet t (TimerFires u) = (u \<noteq> t)"
| "quiet t _ = True"

section \<open>Auxiliary facts: what each handler does to the state\<close>

lemmas prims = setTimeout_def clearTimeout_def clearRef_def toast_def logTo_def setMessages_def

lemma timers_clearRef [simp]: "timers (clearRef r s) = cancelled r (timers s)"
  by (simp add: prims cancelled_def split: option.splits)

lemma clearRef_eq: "clearRef r s = s\<lparr>timers := cancelled r (timers s)\<rparr>"
  by (simp add: prims cancelled_def split: option.splits)

lemma router_invalid:
  "validFrame data = None \<Longrightarrow>
   handleWebSocketMessage now data s =
     s\<lparr>console := console s @ [(LogInfo, ''Received WebSocket message:''),
                                  (LogError, ''Invalid WebSocket message format:'')]\<rparr>"
  by (simp add: handleWebSocketMessage_def logTo_def)

lemma router_connection:
  "validFrame data = Some (''connection'', d) \<Longrightarrow>
   handleWebSocketMessage now data s =
     s\<lparr>console := console s @ [(LogInfo, ''Received WebSocket message:''),
                                  (LogInfo, ''WebSocket connection confirmed by server'')]\<rparr>"
  by (simp add: handleWebSocketMessage_def logTo_def)

lemma router_unknown:
  "validFrame data = Some (t, d) \<Longrightarrow> t \<notin> set knownKinds \<Longrightarrow>
   handleWebSocketMessage now data s =
     s\<lparr>console := console s @ [(LogInfo, ''Received WebSocket message:''),
                                  (LogWarn, ''Unknown WebSocket message type:'')]\<rparr>"
  by (simp add: handleWebSocketMessage_def logTo_def knownKinds_def)

lemma router_status:
  "validFrame data = Some (''status'', d) \<Longrightarrow>
   handleWebSocketMessage now data s =
     s\<lparr>messages := messages s @
          [\<lparr>msg_id = showNat now, msg_type = status,
            content = orElse (message d) ''Processing...'',
            timestamp = now, isProcessing = Some True\<rparr>],
       console := console s @ [(LogInfo, ''Received WebSocket message:'')]\<rparr>"
  by (simp add: handleWebSocketMessage_def logTo_def setMessages_def)

lemma router_intermediate:
  "validFrame data = Some (''intermediate'', d) \<Longrightarrow>
   handleWebSocketMessage now data s =
     s\<lparr>messages := filter (\<lambda>msg. msg_type msg \<noteq> intermediate) (messages s) @
          [\<lparr>msg_id = showNat now, msg_type = intermediate,
            content = intermediateMessage d,
            timestamp = now, isProcessing = Some True\<rparr>],
       console := console s @ [(LogInfo, ''Received WebSocket message:'')]\<rparr>"
  by (simp add: handleWebSocketMessage_def logTo_def setMessages_def)

lemma router_result:
  "validFrame data = Some (''result'', d) \<Longrightarrow>
   handleWebSocketMessage now data s =
     s\<lparr>messages := filter (\<lambda>msg. \<not> processing msg) (messages s) @
          [\<lparr>msg_id = showNat now, msg_type = assistant,
            content = resultMessage d,
            timestamp = now, isProcessing = None\<rparr>],
       isLoading := False,
       timers := cancelled (loadingTimeoutRef s) (timers s),
       console := console s @ [(LogInfo, ''Received WebSocket message:'')]\<rparr>"
  by (simp add: handleWebSocketMessage_def logTo_def setMessages_def clearRef_eq)

lemma router_error:
  "validFrame data = Some (''error'', d) \<Longrightarrow>
   handleWebSocketMessage now data s =
     s\<lparr>messages := filter (\<lambda>msg. \<not> processing msg) (messages s) @
          [\<lparr>msg_id = showNat now, msg_type = assistant,
            content = ''Sorry, I encountered an error: '' @ errorMessage d @
                      ''. Please try again.'',
            timestamp = now, isProcessing = None\<rparr>],
       isLoading := False,
       timers := cancelled (loadingTimeoutRef s) (timers s),
       toasts := toasts s @ [\<lparr>title = ''Query Error'', description = errorMessage d,
                               destructive = True, duration = 5000\<rparr>],
       console := console s @ [(LogInfo, ''Received WebSocket message:'')]\<rparr>"
  by (simp add: handleWebSocketMessage_def logTo_def setMessages_def clearRef_eq toast_def)

lemma router_cases:
  obtains (invalid) "validFrame data = None"
  | (connection) d where "validFrame data = Some (''connection'', d)"
  | (status) d where "validFrame data = Some (''status'', d)"
  | (intermediate) d where "validFrame data = Some (''intermediate'', d)"
  | (result) d where "validFrame data = Some (''result'', d)"
  | (error) d where "validFrame data = Some (''error'', d)"
  | (unknown) t d where "validFrame data = Some (t, d)" "t \<notin> set knownKinds"
proof (cases "validFrame data")
  case None
  then show ?thesis by (rule invalid)
next
  case (Some p)
  obtain t d where p: "validFrame data = Some (t, d)" using Some by (cases p) simp
  show ?thesis
  proof (cases "t \<in> set knownKinds")
    case False
    with p show ?thesis by (rule unknown)
  next
    case True
    then consider "t = ''connection''" | "t = ''status''" | "t = ''intermediate''"
      | "t = ''result''" | "t = ''error''"
      unfolding knownKinds_def by auto
    then show ?thesis
      using p connection status intermediate result error by cases blast+
  qed
qed


lemma send_blocked:
  "trim (inputValue s) = [] \<or> connectionStatus s \<noteq> connected \<or> \<not> isUserAuthenticated s \<Longrightarrow>
   handleSendMessage now s = s"
  by (simp add: handleSendMessage_def)

lemma send_open:
  assumes "trim (inputValue s) \<noteq> []" "connectionStatus s = connected" "isUserAuthenticated s"
    and "websocketRef s = Some OPEN"
  shows "handleSendMessage now s =
     s\<lparr>messages := messages s @
          [\<lparr>msg_id = showNat now, msg_type = user, content = inputValue s,
            timestamp = now, isProcessing = None\<rparr>],
       inputValue := [], isLoading := True,
       loadingTimeoutRef := Some (nextTimerId s),
       timers := cancelled (loadingTimeoutRef s) (timers s) @
          [\<lparr>timer_id = nextTimerId s, due = now + 30000, callback = LoadingTimeout\<rparr>,
           \<lparr>timer_id = Suc (nextTimerId s), due = now + 100, callback = ProcessingStatus\<rparr>],
       nextTimerId := Suc (Suc (nextTimerId s)),
       console := console s @ [(LogInfo, ''Sending WebSocket message:''),
                                (LogInfo, ''User ID (email) included in query:'')],
       sent := sent s @ [\<lparr>out_type = ''query'', query = inputValue s, user_id = USER_ID s\<rparr>]\<rparr>"
  using assms
  by (simp add: handleSendMessage_def Let_def wsSend_def setTimeout_def logTo_def setMessages_def
      clearRef_eq)


lemma onclose_retry:
  assumes "code \<noteq> 1000" "reconnectAttempts s < maxReconnectAttempts"
  shows "onclose now code s =
     s\<lparr>messages := filter (\<lambda>msg. \<not> processing msg) (messages s),
       isLoading := False, connectionStatus := disconnected,
       reconnectTimeoutRef := Some (nextTimerId s),
       timers := timers s @
         [\<lparr>timer_id = nextTimerId s, due = now + reconnectDelay (reconnectAttempts s),
           callback = Reconnect\<rparr>],
       nextTimerId := Suc (nextTimerId s),
       toasts := toasts s @ [connectionLost],
       console := console s @
         [(LogInfo, ''WebSocket disconnected:''),
          (LogInfo, ''Reconnecting in '' @ showNat (reconnectDelay (reconnectAttempts s)) @
                    ''ms (attempt '' @ showNat (reconnectAttempts s + 1) @ ''/'' @
                    showNat maxReconnectAttempts @ '')'')]\<rparr>"
  using assms
  by (simp add: onclose_def Let_def prims connectionLost_def)

lemma onclose_no_retry:
  assumes "code = 1000 \<or> maxReconnectAttempts \<le> reconnectAttempts s"
  shows "onclose now code s =
     s\<lparr>messages := filter (\<lambda>msg. \<not> processing msg) (messages s),
       isLoading := False, connectionStatus := disconnected,
       toasts := toasts s @ (if code \<noteq> 1000 then [connectionLost] else []) @
                 (if maxReconnectAttempts \<le> reconnectAttempts s then [connectionFailed] else []),
       console := console s @ [(LogInfo, ''WebSocket disconnected:'')]\<rparr>"
  using assms
  by (auto simp add: onclose_def Let_def prims connectionLost_def connectionFailed_def)

subsection \<open>The invariant of the session\<close>

lemma flagged_append:
  "flagged (ms @ [m]) = (flagged ms \<and> processing m = provisional m)"
  by (auto simp add: flagged_def)

lemma flagged_filter: "flagged ms \<Longrightarrow> flagged (filter P ms)"
  by (simp add: flagged_def list_all_iff)

lemma flagged_settled_eq:
  "flagged ms \<Longrightarrow> filter (\<lambda>m. \<not> processing m) ms = filter (\<lambda>m. \<not> provisional m) ms"
  by (rule filter_cong) (auto simp add: flagged_def list_all_iff)

lemma flagged_router:
  assumes "flagged (messages s)"
  shows "flagged (messages (handleWebSocketMessage now data s))"
proof (cases data rule: router_cases)
  case invalid then show ?thesis using assms by (simp add: router_invalid)
next
  case (connection d) then show ?thesis using assms by (simp add: router_connection)
next
  case (status d) then show ?thesis using assms
    by (simp add: router_status flagged_append processing_def provisional_def)
next
  case (intermediate d) then show ?thesis using assms
    by (simp add: router_intermediate flagged_append flagged_filter processing_def provisional_def)
next
  case (result d) then show ?thesis using assms
    by (simp add: router_result flagged_append flagged_filter processing_def provisional_def)
next
  case (error d) then show ?thesis using assms
    by (simp add: router_error flagged_append flagged_filter processing_def provisional_def)
next
  case (unknown t d) then show ?thesis using assms by (simp add: router_unknown)
qed


lemma cancelled_member:
  "x \<in> set (cancelled r ts) = (x \<in> set ts \<and> r \<noteq> Some (timer_id x))"
  by (auto simp add: cancelled_def split: option.splits)

lemma cancelled_distinct:
  "distinct (map timer_id ts) \<Longrightarrow> distinct (map timer_id (cancelled r ts))"
  by (simp add: cancelled_def distinct_map_filter split: option.splits)

lemma timersOk_cancelled:
  "timersOk s \<Longrightarrow> timersOk (s\<lparr>timers := cancelled r (timers s)\<rparr>)"
  by (simp add: timersOk_def cancelled_distinct list_all_iff cancelled_member)

lemma timersOk_no_loading:
  "timersOk s \<Longrightarrow> x \<in> set (cancelled (loadingTimeoutRef s) (timers s)) \<Longrightarrow> \<not> isLoadingTimer x"
  by (auto simp add: timersOk_def list_all_iff cancelled_member)

lemma timersOk_router:
  assumes "timersOk s"
  shows "timersOk (handleWebSocketMessage now data s)"
proof (cases data rule: router_cases)
  case invalid then show ?thesis using assms by (simp add: router_invalid timersOk_def)
next
  case (connection d) then show ?thesis using assms by (simp add: router_connection timersOk_def)
next
  case (status d) then show ?thesis using assms by (simp add: router_status timersOk_def)
next
  case (intermediate d) then show ?thesis using assms
    by (simp add: router_intermediate timersOk_def)
next
  case (result d) then show ?thesis using timersOk_cancelled [OF assms]
    by (simp add: router_result timersOk_def)
next
  case (error d) then show ?thesis using timersOk_cancelled [OF assms]
    by (simp add: router_error timersOk_def)
next
  case (unknown t d) then show ?thesis using assms by (simp add: router_unknown timersOk_def)
qed

lemma settled_append [simp]:
  "settled (ms @ [m]) = settled ms + (if processing m then 0 else 1)"
  by (simp add: settled_def)

lemma settled_filter [simp]: "settled (filter (\<lambda>msg. \<not> processing msg) ms) = settled ms"
  by (simp add: settled_def)

lemma settled_drop_intermediate:
  "flagged ms \<Longrightarrow> settled (filter (\<lambda>m. msg_type m \<noteq> intermediate) ms) = settled ms"
proof -
  assume "flagged ms"
  then have "filter (\<lambda>m. \<not> processing m) (filter (\<lambda>m. msg_type m \<noteq> intermediate) ms)
     = filter (\<lambda>m. \<not> processing m) ms"
    by (induction ms) (auto simp: flagged_def provisional_def)
  then show ?thesis by (simp add: settled_def)
qed

lemma inv_router:
  assumes "sessionInv s"
  shows "sessionInv (handleWebSocketMessage now data s)"
proof -
  have f: "flagged (messages s)" and t: "timersOk s" using assms by (simp_all add: sessionInv_def)
  note f' = flagged_router [OF f, of now data] and t' = timersOk_router [OF t, of now data]
  have rest: "(connectionStatus s' = connected \<longrightarrow> websocketRef s' = Some OPEN) \<and>
      1 \<le> settled (messages s') \<and>
      (isLoading s' \<longrightarrow> inputValue s' = [] \<and> 2 \<le> settled (messages s'))"
    if "s' = handleWebSocketMessage now data s" for s'
  proof (cases data rule: router_cases)
    case invalid then show ?thesis using assms that by (simp add: router_invalid sessionInv_def)
  next
    case (connection d) then show ?thesis using assms that
      by (simp add: router_connection sessionInv_def)
  next
    case (status d) then show ?thesis using assms that
      by (simp add: router_status sessionInv_def processing_def)
  next
    case (intermediate d) then show ?thesis using assms that settled_drop_intermediate [OF f]
      by (simp add: router_intermediate sessionInv_def processing_def)
  next
    case (result d) then show ?thesis using assms that
      by (simp add: router_result sessionInv_def processing_def)
  next
    case (error d) then show ?thesis using assms that
      by (simp add: router_error sessionInv_def processing_def)
  next
    case (unknown t d) then show ?thesis using assms that
      by (simp add: router_unknown sessionInv_def)
  qed
  show ?thesis using f' t' rest [OF refl] by (simp add: sessionInv_def)
qed

lemma inv_console [simp]: "sessionInv (s\<lparr>console := c\<rparr>) = sessionInv s"
  by (simp add: sessionInv_def timersOk_def)

lemma inv_toasts [simp]: "sessionInv (s\<lparr>toasts := c\<rparr>) = sessionInv s"
  by (simp add: sessionInv_def timersOk_def)

lemma inv_onmessage: "sessionInv s \<Longrightarrow> sessionInv (onmessage now parsed s)"
  by (cases parsed) (simp_all add: onmessage_def inv_router toast_def logTo_def)


lemma inv_connect: "sessionInv s \<Longrightarrow> sessionInv (connectWebSocket s)"
  by (simp add: sessionInv_def connectWebSocket_def logTo_def timersOk_def)

lemma inv_onopen: "sessionInv s \<Longrightarrow> sessionInv (onopen (s\<lparr>websocketRef := Some OPEN\<rparr>))"
  by (simp add: sessionInv_def onopen_def logTo_def toast_def timersOk_def)

lemma inv_onerror: "sessionInv s \<Longrightarrow> sessionInv (onerror s)"
  by (simp add: sessionInv_def onerror_def logTo_def toast_def timersOk_def)

lemma inv_onclose:
  assumes "sessionInv s"
  shows "sessionInv (onclose now code (s\<lparr>websocketRef := Some CLOSED\<rparr>))"
proof (cases "code \<noteq> 1000 \<and> reconnectAttempts s < maxReconnectAttempts")
  case True
  then show ?thesis using assms
    by (auto simp add: onclose_retry sessionInv_def flagged_filter timersOk_def list_all_iff
        isLoadingTimer_def)
next
  case False
  then have "code = 1000 \<or> maxReconnectAttempts \<le> reconnectAttempts s" by auto
  then show ?thesis using assms
    by (simp add: onclose_no_retry sessionInv_def flagged_filter timersOk_def)
qed

lemma inv_loadingTimeout: "sessionInv s \<Longrightarrow> sessionInv (loadingTimeoutCallback now s)"
  by (simp add: sessionInv_def loadingTimeoutCallback_def toast_def setMessages_def timersOk_def
      flagged_append flagged_filter processing_def provisional_def)

lemma inv_processingStatus: "sessionInv s \<Longrightarrow> sessionInv (processingStatusCallback now s)"
  by (simp add: sessionInv_def processingStatusCallback_def setMessages_def timersOk_def
      flagged_append processing_def provisional_def)

lemma inv_reconnectCallback: "sessionInv s \<Longrightarrow> sessionInv (reconnectCallback s)"
proof -
  assume "sessionInv s"
  then have "sessionInv (s\<lparr>reconnectAttempts := Suc (reconnectAttempts s)\<rparr>)"
    by (simp add: sessionInv_def timersOk_def)
  then show ?thesis unfolding reconnectCallback_def by (rule inv_connect)
qed

lemma inv_clearTimeout: "sessionInv s \<Longrightarrow> sessionInv (clearTimeout t s)"
proof -
  assume a: "sessionInv s"
  then have "timersOk s" by (simp add: sessionInv_def)
  from timersOk_cancelled [OF this, of "Some t"] a show ?thesis
    by (simp add: sessionInv_def clearTimeout_def cancelled_def)
qed

lemma inv_fireTimer: "sessionInv s \<Longrightarrow> sessionInv (fireTimer now t s)"
proof -
  assume a: "sessionInv s"
  have "sessionInv (runCallback cb now (clearTimeout t s))" for cb
    by (cases cb) (simp_all add: inv_loadingTimeout inv_processingStatus inv_reconnectCallback
        inv_clearTimeout a)
  then show ?thesis using a by (simp add: fireTimer_def split: option.splits)
qed

lemma inv_handleSendMessage:
  assumes "sessionInv s"
  shows "sessionInv (handleSendMessage now s)"
proof (cases "trim (inputValue s) = [] \<or> connectionStatus s \<noteq> connected \<or> \<not> isUserAuthenticated s")
  case True
  then show ?thesis using assms by (simp add: send_blocked)
next
  case False
  then have g: "trim (inputValue s) \<noteq> []" "connectionStatus s = connected" "isUserAuthenticated s"
    by auto
  then have o: "websocketRef s = Some OPEN" using assms by (simp add: sessionInv_def)
  have t: "timersOk s" using assms by (simp add: sessionInv_def)
  have "timersOk (handleSendMessage now s)"
    using t cancelled_distinct [of "timers s" "loadingTimeoutRef s"]
    by (fastforce simp add: send_open [OF g o] timersOk_def list_all_iff cancelled_member
        isLoadingTimer_def)
  then show ?thesis using assms
    by (simp add: send_open [OF g o] sessionInv_def flagged_append processing_def provisional_def)
qed

lemma inv_clearChat: "sessionInv s \<Longrightarrow> suggestionsShown s \<Longrightarrow> sessionInv (clearChat now s)"
proof -
  assume a: "sessionInv s" and b: "suggestionsShown s"
  have "settled (messages s) \<le> length (messages s)" by (simp add: settled_def)
  then have "\<not> isLoading s" using a b by (auto simp add: sessionInv_def suggestionsShown_def)
  then show ?thesis using a
    by (simp add: sessionInv_def clearChat_def timersOk_def flagged_def settled_def
        processing_def provisional_def)
qed

lemma inv_step: "sessionInv s \<Longrightarrow> sessionInv (step now e s)"
proof (cases e)
  case ClickSend
  assume "sessionInv s" then show ?thesis using ClickSend by (simp add: inv_handleSendMessage)
next
  case PressEnter
  assume "sessionInv s" then show ?thesis using PressEnter by (simp add: inv_handleSendMessage)
next
  case (ChangeInput v)
  assume "sessionInv s" then show ?thesis using ChangeInput
    by (simp add: sessionInv_def inputDisabled_def timersOk_def)
next
  case (ClickSuggestedQuery i)
  assume a: "sessionInv s"
  have "settled (messages s) \<le> length (messages s)" by (simp add: settled_def)
  then have "suggestionsShown s \<Longrightarrow> \<not> isLoading s"
    using a by (auto simp add: sessionInv_def suggestionsShown_def)
  then show ?thesis using ClickSuggestedQuery a
    by (auto simp add: sessionInv_def timersOk_def)
next
  case ClickClearChat
  assume "sessionInv s" then show ?thesis using ClickClearChat by (simp add: inv_clearChat)
next
  case ClickReconnect
  assume a: "sessionInv s"
  then have "sessionInv (s\<lparr>reconnectAttempts := 0\<rparr>)" by (simp add: sessionInv_def timersOk_def)
  then show ?thesis using ClickReconnect a by (simp add: inv_connect)
next
  case SocketOpen
  assume "sessionInv s" then show ?thesis using SocketOpen by (simp add: inv_onopen)
next
  case (SocketMessage parsed)
  assume "sessionInv s" then show ?thesis using SocketMessage by (simp add: inv_onmessage)
next
  case (SocketClose code)
  assume "sessionInv s" then show ?thesis using SocketClose by (simp add: inv_onclose)
next
  case SocketError
  assume "sessionInv s" then show ?thesis using SocketError by (simp add: inv_onerror)
next
  case (TimerFires t)
  assume "sessionInv s" then show ?thesis using TimerFires by (simp add: inv_fireTimer)
qed

lemma inv_init: "sessionInv (mount (initialState auth uid now))"
  by (simp add: sessionInv_def mount_def initialState_def connectWebSocket_def logTo_def
      flagged_def timersOk_def settled_def processing_def provisional_def)

lemma reachable_inv: "reachable s \<Longrightarrow> sessionInv s"
  by (induction rule: reachable.induct) (simp_all add: inv_init inv_step)

lemma reachable_run: "reachable s \<Longrightarrow> reachable (run es s)"
proof (induction es arbitrary: s)
  case Nil then show ?case by simp
next
  case (Cons a es)
  obtain n e where a: "a = (n, e)" by (cases a)
  show ?case using Cons a by (simp add: reach_step)
qed


subsection \<open>The example session, evaluated\<close>

lemma exampleStart_eq:
  "exampleStart =
     \<lparr>messages = [\<lparr>msg_id = ''1'', msg_type = assistant, content = initialGreeting,
                    timestamp = 0, isProcessing = None\<rparr>],
      inputValue = [], isLoading = False, connectionStatus = connecting,
      websocketRef = Some CONNECTING, reconnectTimeoutRef = None, loadingTimeoutRef = None,
      reconnectAttempts = 0, isUserAuthenticated = True, USER_ID = ''u@example.com'',
      timers = [], nextTimerId = 1, toasts = [],
      console = [(LogInfo, ''Attempting WebSocket connection to:''),
                 (LogInfo, ''Using user email as ID:'')],
      sent = []\<rparr>"
  by (simp add: exampleStart_def mount_def initialState_def connectWebSocket_def logTo_def)

lemma exampleSession_eq:
  "exampleSession =
     \<lparr>messages = [\<lparr>msg_id = ''1'', msg_type = assistant, content = initialGreeting,
                    timestamp = 0, isProcessing = None\<rparr>,
                  \<lparr>msg_id = ''20'', msg_type = user, content = ''hi'',
                    timestamp = 20, isProcessing = None\<rparr>],
      inputValue = [], isLoading = True, connectionStatus = connected,
      websocketRef = Some OPEN, reconnectTimeoutRef = None, loadingTimeoutRef = Some 1,
      reconnectAttempts = 0, isUserAuthenticated = True, USER_ID = ''u@example.com'',
      timers = [\<lparr>timer_id = 1, due = 30020, callback = LoadingTimeout\<rparr>,
                \<lparr>timer_id = 2, due = 120, callback = ProcessingStatus\<rparr>],
      nextTimerId = 3,
      toasts = [\<lparr>title = ''Connected'',
                  description = ''WebSocket connection established successfully.'',
                  destructive = False, duration = 3000\<rparr>],
      console = [(LogInfo, ''Attempting WebSocket connection to:''),
                 (LogInfo, ''Using user email as ID:''),
                 (LogInfo, ''WebSocket connected''),
                 (LogInfo, ''Sending WebSocket message:''),
                 (LogInfo, ''User ID (email) included in query:'')],
      sent = [\<lparr>out_type = ''query'', query = ''hi'', user_id = ''u@example.com''\<rparr>]\<rparr>"
  by (simp add: exampleSession_def exampleStart_eq onopen_def toast_def logTo_def
      inputDisabled_def sendDisabled_def trim_def isWhitespace_def
      handleSendMessage_def Let_def setMessages_def clearRef_def setTimeout_def wsSend_def
      showNat.simps digit_def)


lemma reachable_exampleSession: "reachable exampleSession"
  unfolding exampleSession_def exampleStart_def by (rule reachable_run) (rule reach_init)


subsection \<open>Delivering frames\<close>

lemma fire_absent: "t \<notin> timer_id ` set (timers s) \<Longrightarrow> fireTimer now t s = s"
proof -
  assume "t \<notin> timer_id ` set (timers s)"
  then have "find (\<lambda>x. timer_id x = t) (timers s) = None"
    by (auto simp add: find_None_iff)
  then show ?thesis by (simp add: fireTimer_def)
qed

lemma find_distinct:
  "distinct (map timer_id ts) \<Longrightarrow> x \<in> set ts \<Longrightarrow> find (\<lambda>y. timer_id y = timer_id x) ts = Some x"
  by (induction ts) (auto simp add: rev_image_eqI)

lemma progress_keeps_settled:
  assumes "progressFrame e"
  shows "filter (\<lambda>m. \<not> provisional m) (messages (step now e s)) =
         filter (\<lambda>m. \<not> provisional m) (messages s)"
proof -
  obtain d where e: "e = SocketMessage (Some (JObject d))"
    and k: "frame_type d = Some ''status'' \<or> frame_type d = Some ''intermediate''"
    using assms by (cases e rule: progressFrame.cases) auto
  from k show ?thesis
  proof
    assume "frame_type d = Some ''status''"
    then have "validFrame (JObject d) = Some (''status'', d)" by simp
    then show ?thesis by (simp add: e onmessage_def router_status provisional_def)
  next
    assume "frame_type d = Some ''intermediate''"
    then have "validFrame (JObject d) = Some (''intermediate'', d)" by simp
    then show ?thesis
      by (simp add: e onmessage_def router_intermediate provisional_def conj_commute)
  qed
qed

lemma progress_run_keeps_settled:
  "list_all (\<lambda>p. progressFrame (snd p)) es \<Longrightarrow>
   filter (\<lambda>m. \<not> provisional m) (messages (run es s)) =
   filter (\<lambda>m. \<not> provisional m) (messages s)"
proof (induction es arbitrary: s)
  case Nil then show ?case by simp
next
  case (Cons a es)
  obtain n e where a: "a = (n, e)" by (cases a)
  show ?case using Cons a by (simp add: progress_keeps_settled)
qed

lemma terminal_step:
  assumes "frame_type d = Some ''result'' \<or> frame_type d = Some ''error''"
  shows "messages (onmessage now (Some (JObject d)) s) =
           filter (\<lambda>msg. \<not> processing msg) (messages s) @ [terminalTurn now d]"
    and "isLoading (onmessage now (Some (JObject d)) s) = False"
    and "timers (onmessage now (Some (JObject d)) s) =
           cancelled (loadingTimeoutRef s) (timers s)"
    and "loadingTimeoutRef (onmessage now (Some (JObject d)) s) = loadingTimeoutRef s"
proof -
  from assms consider (r) "validFrame (JObject d) = Some (''result'', d)" "frame_type d = Some ''result''"
    | (e) "validFrame (JObject d) = Some (''error'', d)" "frame_type d = Some ''error''"
    by auto
  then have "messages (onmessage now (Some (JObject d)) s) =
           filter (\<lambda>msg. \<not> processing msg) (messages s) @ [terminalTurn now d] \<and>
     isLoading (onmessage now (Some (JObject d)) s) = False \<and>
     timers (onmessage now (Some (JObject d)) s) =
           cancelled (loadingTimeoutRef s) (timers s) \<and>
     loadingTimeoutRef (onmessage now (Some (JObject d)) s) = loadingTimeoutRef s"
  proof cases
    case r then show ?thesis by (simp add: onmessage_def router_result terminalTurn_def)
  next
    case e then show ?thesis by (simp add: onmessage_def router_error terminalTurn_def)
  qed
  then show "messages (onmessage now (Some (JObject d)) s) =
           filter (\<lambda>msg. \<not> processing msg) (messages s) @ [terminalTurn now d]"
    and "isLoading (onmessage now (Some (JObject d)) s) = False"
    and "timers (onmessage now (Some (JObject d)) s) =
           cancelled (loadingTimeoutRef s) (timers s)"
    and "loadingTimeoutRef (onmessage now (Some (JObject d)) s) = loadingTimeoutRef s"
    by simp_all
qed

subsection \<open>The processing flag, event by event\<close>

lemma messages_handleSendMessage:
  "messages (handleSendMessage now s) =
     (if trim (inputValue s) = [] \<or> connectionStatus s \<noteq> connected \<or> \<not> isUserAuthenticated s
      then messages s
      else messages s @
        [\<lparr>msg_id = showNat now, msg_type = user, content = inputValue s,
          timestamp = now, isProcessing = None\<rparr>])"
  by (simp add: handleSendMessage_def Let_def wsSend_def prims
      split: option.splits ReadyState.splits)

lemma flagged_fireTimer:
  assumes "flagged (messages s)"
  shows "flagged (messages (fireTimer now t s))"
proof -
  have "flagged (messages (runCallback cb now (clearTimeout t s)))" for cb
    using assms
    by (cases cb)
      (simp_all add: loadingTimeoutCallback_def processingStatusCallback_def reconnectCallback_def
        connectWebSocket_def prims flagged_append flagged_filter processing_def provisional_def)
  then show ?thesis using assms by (simp add: fireTimer_def split: option.splits)
qed

lemma flagged_step:
  assumes "flagged (messages s)"
  shows "flagged (messages (step now e s))"
proof (cases e)
  case ClickSend
  then show ?thesis using assms
    by (simp add: messages_handleSendMessage flagged_append processing_def provisional_def)
next
  case PressEnter
  then show ?thesis using assms
    by (simp add: messages_handleSendMessage flagged_append processing_def provisional_def)
next
  case (ChangeInput v) then show ?thesis using assms by simp
next
  case (ClickSuggestedQuery i) then show ?thesis using assms by simp
next
  case ClickClearChat
  then show ?thesis using assms
    by (simp add: clearChat_def flagged_def processing_def provisional_def)
next
  case ClickReconnect
  then show ?thesis using assms by (simp add: connectWebSocket_def logTo_def)
next
  case SocketOpen then show ?thesis using assms by (simp add: onopen_def prims)
next
  case (SocketMessage parsed)
  then show ?thesis using assms
    by (cases parsed) (simp_all add: onmessage_def flagged_router prims)
next
  case (SocketClose code)
  then show ?thesis using assms
    by (cases "code \<noteq> 1000 \<and> reconnectAttempts s < maxReconnectAttempts")
      (auto simp add: onclose_retry onclose_no_retry flagged_filter)
next
  case SocketError then show ?thesis using assms by (simp add: onerror_def prims)
next
  case (TimerFires t) then show ?thesis using assms by (simp add: flagged_fireTimer)
qed

lemma droppedFrame_cases:
  assumes "droppedFrame parsed"
  obtains (unparseable) "parsed = None"
  | (invalid) data where "parsed = Some data" "validFrame data = None"
  | (unknown) data t d where "parsed = Some data" "validFrame data = Some (t, d)"
      "t \<notin> set knownKinds"
  using assms by (auto simp add: droppedFrame_def split: option.splits)

subsection \<open>Firing a timer, and the events that leave it pending\<close>

lemma loadingTimeout_fired:
  "loadingTimeoutCallback n (clearTimeout t s) =
     s\<lparr>messages := filter (\<lambda>msg. \<not> processing msg) (messages s) @ [timeoutTurn n],
       isLoading := False,
       timers := filter (\<lambda>x. timer_id x \<noteq> t) (timers s),
       toasts := toasts s @
         [\<lparr>title = ''Request Timeout'',
           description = ''The server is taking too long to respond. Please try again.'',
           destructive = True, duration = 5000\<rparr>]\<rparr>"
  by (simp add: loadingTimeoutCallback_def prims timeoutTurn_def)

lemma fire_early:
  "distinct (map timer_id (timers s)) \<Longrightarrow> x \<in> set (timers s) \<Longrightarrow> n < due x \<Longrightarrow>
   fireTimer n (timer_id x) s = s"
  by (simp add: fireTimer_def find_distinct)

lemma fire_loading:
  "distinct (map timer_id (timers s)) \<Longrightarrow> x \<in> set (timers s) \<Longrightarrow> callback x = LoadingTimeout \<Longrightarrow>
   due x \<le> n \<Longrightarrow>
   fireTimer n (timer_id x) s = loadingTimeoutCallback n (clearTimeout (timer_id x) s)"
  by (simp add: fireTimer_def find_distinct)

lemma timers_runCallback: "timers (runCallback cb n s) = timers s"
  by (cases cb)
    (simp_all add: loadingTimeoutCallback_def processingStatusCallback_def reconnectCallback_def
      connectWebSocket_def prims)

lemma timers_fireTimer:
  "set (timers (fireTimer n u s)) \<supseteq> {x \<in> set (timers s). timer_id x \<noteq> u}"
  by (auto simp add: fireTimer_def timers_runCallback clearTimeout_def split: option.splits)

lemma timers_router_quiet:
  assumes "case validFrame data of None \<Rightarrow> True | Some (k, d) \<Rightarrow> k \<noteq> ''result'' \<and> k \<noteq> ''error''"
  shows "timers (handleWebSocketMessage now data s) = timers s"
proof (cases data rule: router_cases)
  case invalid then show ?thesis by (simp add: router_invalid)
next
  case (connection d) then show ?thesis by (simp add: router_connection)
next
  case (status d) then show ?thesis by (simp add: router_status)
next
  case (intermediate d) then show ?thesis by (simp add: router_intermediate)
next
  case (result d) then show ?thesis using assms by simp
next
  case (error d) then show ?thesis using assms by simp
next
  case (unknown t d) then show ?thesis by (simp add: router_unknown)
qed

lemma quiet_keeps_timer:
  assumes "x \<in> set (timers s)" "quiet (timer_id x) e"
  shows "x \<in> set (timers (step now e s))"
proof (cases e)
  case ClickSend then show ?thesis using assms by simp
next
  case PressEnter then show ?thesis using assms by simp
next
  case (ChangeInput v) then show ?thesis using assms by simp
next
  case (ClickSuggestedQuery i) then show ?thesis using assms by simp
next
  case ClickClearChat then show ?thesis using assms by (simp add: clearChat_def)
next
  case ClickReconnect then show ?thesis using assms by (simp add: connectWebSocket_def logTo_def)
next
  case SocketOpen then show ?thesis using assms by (simp add: onopen_def prims)
next
  case (SocketMessage parsed)
  then show ?thesis using assms
    by (cases parsed) (simp_all add: onmessage_def prims timers_router_quiet)
next
  case (SocketClose code)
  then show ?thesis using assms
    by (cases "code \<noteq> 1000 \<and> reconnectAttempts s < maxReconnectAttempts")
      (auto simp add: onclose_retry onclose_no_retry)
next
  case SocketError then show ?thesis using assms by (simp add: onerror_def prims)
next
  case (TimerFires u)
  then show ?thesis using assms timers_fireTimer [of s u now] by auto
qed

lemma quiet_run_keeps_timer:
  "x \<in> set (timers s) \<Longrightarrow> list_all (\<lambda>p. quiet (timer_id x) (snd p)) es \<Longrightarrow>
   x \<in> set (timers (run es s))"
proof (induction es arbitrary: s)
  case Nil then show ?case by simp
next
  case (Cons a es)
  obtain n e where a: "a = (n, e)" by (cases a)
  show ?case using Cons a by (simp add: quiet_keeps_timer)
qed

subsection \<open>At most one query timeout\<close>



lemma timersOk_cancelled_none:
  "timersOk s \<Longrightarrow> filter isLoadingTimer (cancelled (loadingTimeoutRef s) (timers s)) = []"
  using timersOk_no_loading by (auto simp add: filter_empty_conv)

lemma timersOk_fired_none:
  assumes "timersOk s" "x \<in> set (timers s)" "isLoadingTimer x"
  shows "filter isLoadingTimer (filter (\<lambda>y. timer_id y \<noteq> timer_id x) (timers s)) = []"
proof -
  have "loadingTimeoutRef s = Some (timer_id x)"
    using assms by (auto simp add: timersOk_def list_all_iff)
  then show ?thesis using timersOk_cancelled_none [OF assms(1)] by (simp add: cancelled_def)
qed

lemma intermediate_step:
  "frame_type d = Some ''intermediate'' \<Longrightarrow>
   onmessage now (Some (JObject d)) s =
     s\<lparr>messages := filter (\<lambda>msg. msg_type msg \<noteq> intermediate) (messages s) @
          [intermediateTurn now d],
       console := console s @ [(LogInfo, ''Received WebSocket message:'')]\<rparr>"
proof -
  assume "frame_type d = Some ''intermediate''"
  then have "validFrame (JObject d) = Some (''intermediate'', d)" by simp
  then show ?thesis by (simp add: onmessage_def router_intermediate intermediateTurn_def)
qed

section \<open>Reconnection\<close>

text \<open>
  Claim C3. The delay before a retry is \<open>min (1000 * 2 ^ attempt) 30000\<close> milliseconds, that
  is 1000, 2000, 4000, 8000, 16000, 30000, 30000 for the attempts 0 to 6. The attempt
  counter grows by one each time the retry timer fires. A close with a code other than
  1000 while the counter is below 5 schedules one retry timer with that delay; once
  the counter has reached 5 a close schedules nothing and raises the "Connection
  Failed" notification.
\<close>

theorem reconnect_backoff_policy:
  "reconnectDelay attempt = min (1000 * 2 ^ attempt) 30000 \<and>
   map reconnectDelay [0, 1, 2, 3, 4, 5, 6] = [1000, 2000, 4000, 8000, 16000, 30000, 30000] \<and>
   maxReconnectAttempts = 5 \<and>
   reconnectAttempts (reconnectCallback s) = Suc (reconnectAttempts s) \<and>
   (code \<noteq> 1000 \<and> reconnectAttempts s < maxReconnectAttempts \<longrightarrow>
      timers (step now (SocketClose code) s) =
        timers s @ [\<lparr>timer_id = nextTimerId s,
                      due = now + reconnectDelay (reconnectAttempts s),
                      callback = Reconnect\<rparr>]) \<and>
   (maxReconnectAttempts \<le> reconnectAttempts s \<longrightarrow>
      timers (step now (SocketClose code) s) = timers s \<and>
      reconnectTimeoutRef (step now (SocketClose code) s) = reconnectTimeoutRef s \<and>
      toasts (step now (SocketClose code) s) =
        toasts s @ (if code \<noteq> 1000 then [connectionLost] else []) @ [connectionFailed])"
proof -
  have a: "reconnectDelay attempt = min (1000 * 2 ^ attempt) 30000"
    by (simp add: reconnectDelay_def)
  have b: "map reconnectDelay [0, 1, 2, 3, 4, 5, 6] =
      [1000, 2000, 4000, 8000, 16000, 30000, 30000]"
    by (simp add: reconnectDelay_def)
  have c: "reconnectAttempts (reconnectCallback s) = Suc (reconnectAttempts s)"
    by (simp add: reconnectCallback_def connectWebSocket_def logTo_def)
  have d: "timers (step now (SocketClose code) s) =
        timers s @ [\<lparr>timer_id = nextTimerId s,
                      due = now + reconnectDelay (reconnectAttempts s),
                      callback = Reconnect\<rparr>]"
    if "code \<noteq> 1000" "reconnectAttempts s < maxReconnectAttempts"
    using that by (simp add: onclose_retry)
  have e: "timers (step now (SocketClose code) s) = timers s \<and>
      reconnectTimeoutRef (step now (SocketClose code) s) = reconnectTimeoutRef s \<and>
      toasts (step now (SocketClose code) s) =
        toasts s @ (if code \<noteq> 1000 then [connectionLost] else []) @ [connectionFailed]"
    if "maxReconnectAttempts \<le> reconnectAttempts s"
    using that by (simp add: onclose_no_retry)
  show ?thesis using a b c d e by (simp add: maxReconnectAttempts_def)
qed

theorem reconnect_backoff_policy_witness:
  "timers (step 50 (SocketClose 1006) (mount (initialState True ''u@example.com'' 0))) =
     [\<lparr>timer_id = 1, due = 1050, callback = Reconnect\<rparr>] \<and>
   timers (step 50 (SocketClose 1006)
     ((mount (initialState True ''u@example.com'' 0))\<lparr>reconnectAttempts := 5\<rparr>)) = [] \<and>
   toasts (step 50 (SocketClose 1006)
     ((mount (initialState True ''u@example.com'' 0))\<lparr>reconnectAttempts := 5\<rparr>)) =
     [connectionLost, connectionFailed]"
proof -
  let ?s = "mount (initialState True ''u@example.com'' 0)"
  let ?e = "?s\<lparr>reconnectAttempts := 5\<rparr>"
  have s: "timers ?s = []" "nextTimerId ?s = 1" "reconnectAttempts ?s = 0" "toasts ?s = []"
    by (simp_all add: mount_def initialState_def connectWebSocket_def logTo_def)
  have h1: "(1006::nat) \<noteq> 1000 \<and> reconnectAttempts ?s < maxReconnectAttempts"
    by (simp add: s maxReconnectAttempts_def)
  have h2: "maxReconnectAttempts \<le> reconnectAttempts ?e"
    by (simp add: maxReconnectAttempts_def)
  have "timers (step 50 (SocketClose 1006) ?s) =
      timers ?s @ [\<lparr>timer_id = nextTimerId ?s, due = 50 + reconnectDelay (reconnectAttempts ?s),
                     callback = Reconnect\<rparr>]"
    using reconnect_backoff_policy [of 0 ?s 1006 50] h1 by blast
  moreover have "timers (step 50 (SocketClose 1006) ?e) = timers ?e \<and>
      toasts (step 50 (SocketClose 1006) ?e) =
        toasts ?e @ (if (1006::nat) \<noteq> 1000 then [connectionLost] else []) @ [connectionFailed]"
    using reconnect_backoff_policy [of 0 ?e 1006 50] h2 by blast
  ultimately show ?thesis
    by (simp add: s reconnectDelay_def)
qed

text \<open>
  Claim C6. A close with code 1000 leaves the pending timers and the reconnection
  reference as they were, whatever the attempt counter is, and raises no "Connection
  Lost" notification. A close with any other code raises it and then either schedules a
  retry (counter below 5) or raises "Connection Failed".
\<close>

theorem normal_closure_never_reconnects:
  "timers (step now (SocketClose 1000) s) = timers s \<and>
   reconnectTimeoutRef (step now (SocketClose 1000) s) = reconnectTimeoutRef s \<and>
   nextTimerId (step now (SocketClose 1000) s) = nextTimerId s \<and>
   connectionStatus (step now (SocketClose 1000) s) = disconnected \<and>
   websocketRef (step now (SocketClose 1000) s) = Some CLOSED \<and>
   connectionLost \<notin> set (toasts (step now (SocketClose 1000) s)) - set (toasts s) \<and>
   (code \<noteq> 1000 \<longrightarrow>
      toasts (step now (SocketClose code) s) =
        toasts s @ [connectionLost] @
          (if reconnectAttempts s < maxReconnectAttempts then [] else [connectionFailed]) \<and>
      timers (step now (SocketClose code) s) =
        timers s @
          (if reconnectAttempts s < maxReconnectAttempts
           then [\<lparr>timer_id = nextTimerId s,
                   due = now + reconnectDelay (reconnectAttempts s),
                   callback = Reconnect\<rparr>]
           else []))"
proof -
  have a: "onclose now 1000 (s\<lparr>websocketRef := Some CLOSED\<rparr>) =
     s\<lparr>messages := filter (\<lambda>msg. \<not> processing msg) (messages s),
       isLoading := False, connectionStatus := disconnected, websocketRef := Some CLOSED,
       toasts := toasts s @
                 (if maxReconnectAttempts \<le> reconnectAttempts s then [connectionFailed] else []),
       console := console s @ [(LogInfo, ''WebSocket disconnected:'')]\<rparr>"
    by (simp add: onclose_no_retry)
  have ne: "connectionLost \<noteq> connectionFailed"
    by (simp add: connectionLost_def connectionFailed_def)
  have b: "toasts (step now (SocketClose code) s) =
        toasts s @ [connectionLost] @
          (if reconnectAttempts s < maxReconnectAttempts then [] else [connectionFailed]) \<and>
      timers (step now (SocketClose code) s) =
        timers s @
          (if reconnectAttempts s < maxReconnectAttempts
           then [\<lparr>timer_id = nextTimerId s,
                   due = now + reconnectDelay (reconnectAttempts s),
                   callback = Reconnect\<rparr>]
           else [])" if "code \<noteq> 1000"
  proof (cases "reconnectAttempts s < maxReconnectAttempts")
    case True
    then show ?thesis using that by (simp add: onclose_retry)
  next
    case False
    then show ?thesis using that by (simp add: onclose_no_retry)
  qed
  show ?thesis using b ne by (auto simp add: a)
qed

theorem normal_closure_never_reconnects_witness:
  "timers (step 50 (SocketClose 1000) (mount (initialState True ''u@example.com'' 0))) = [] \<and>
   (1006 \<noteq> (1000::nat) \<and>
    timers (step 50 (SocketClose 1006) (mount (initialState True ''u@example.com'' 0))) =
      [\<lparr>timer_id = 1, due = 1050, callback = Reconnect\<rparr>])"
proof -
  let ?s = "mount (initialState True ''u@example.com'' 0)"
  have s: "timers ?s = []" "nextTimerId ?s = 1" "reconnectAttempts ?s = 0"
    by (simp_all add: mount_def initialState_def connectWebSocket_def logTo_def)
  have h: "(1006::nat) \<noteq> 1000" by simp
  have "timers (step 50 (SocketClose 1000) ?s) = timers ?s"
    using normal_closure_never_reconnects [of 50 ?s 1006] by blast
  moreover have "timers (step 50 (SocketClose 1006) ?s) =
        timers ?s @
          (if reconnectAttempts ?s < maxReconnectAttempts
           then [\<lparr>timer_id = nextTimerId ?s,
                   due = 50 + reconnectDelay (reconnectAttempts ?s),
                   callback = Reconnect\<rparr>]
           else [])"
    using normal_closure_never_reconnects [of 50 ?s 1006] h by blast
  ultimately show ?thesis
    by (simp add: s reconnectDelay_def maxReconnectAttempts_def)
qed

section \<open>The router and the history\<close>

text \<open>
  Claim C2. In any state the component reaches, and after any number of status and
  intermediate frames, a result frame or an error frame leaves the history as the turns
  that were not provisional followed by one new assistant turn; no status or
  intermediate turn remains, the loading flag is off, no query timeout is pending, and
  the timer the reference pointed to does nothing if it is fired afterwards.
\<close>

theorem terminal_frame_settles_query:
  assumes "reachable s"
    and "list_all (\<lambda>p. progressFrame (snd p)) es"
    and "frame_type d = Some ''result'' \<or> frame_type d = Some ''error''"
  shows "messages (step now (SocketMessage (Some (JObject d))) (run es s)) =
           filter (\<lambda>m. \<not> provisional m) (messages s) @ [terminalTurn now d] \<and>
         msg_type (terminalTurn now d) = assistant \<and>
         (\<forall>m \<in> set (messages (step now (SocketMessage (Some (JObject d))) (run es s))).
            msg_type m \<noteq> status \<and> msg_type m \<noteq> intermediate) \<and>
         \<not> isLoading (step now (SocketMessage (Some (JObject d))) (run es s)) \<and>
         (\<forall>x \<in> set (timers (step now (SocketMessage (Some (JObject d))) (run es s))).
            callback x \<noteq> LoadingTimeout) \<and>
         (\<forall>t n. loadingTimeoutRef (run es s) = Some t \<longrightarrow>
            step n (TimerFires t) (step now (SocketMessage (Some (JObject d))) (run es s)) =
            step now (SocketMessage (Some (JObject d))) (run es s))"
proof -
  let ?m = "run es s"
  let ?s' = "onmessage now (Some (JObject d)) ?m"
  have inv: "sessionInv ?m" using assms(1) by (simp add: reachable_run reachable_inv)
  then have fl: "flagged (messages ?m)" and ok: "timersOk ?m" by (simp_all add: sessionInv_def)
  note t = terminal_step [OF assms(3), of now ?m]
  have m: "messages ?s' = filter (\<lambda>m. \<not> provisional m) (messages s) @ [terminalTurn now d]"
    using t(1) flagged_settled_eq [OF fl] progress_run_keeps_settled [OF assms(2), of s] by simp
  have a: "msg_type (terminalTurn now d) = assistant" by (simp add: terminalTurn_def)
  have p: "\<forall>m \<in> set (messages ?s'). msg_type m \<noteq> status \<and> msg_type m \<noteq> intermediate"
    using a by (auto simp add: m provisional_def)
  have l: "\<forall>x \<in> set (timers ?s'). callback x \<noteq> LoadingTimeout"
    using timersOk_no_loading [OF ok] by (auto simp add: t(3) isLoadingTimer_def)
  have f: "fireTimer n t ?s' = ?s'" if "loadingTimeoutRef ?m = Some t" for t n
  proof -
    have "t \<notin> timer_id ` set (timers ?s')" using that by (auto simp add: t(3) cancelled_member)
    then show ?thesis by (rule fire_absent)
  qed
  show ?thesis using m a p t(2) l f by simp
qed


theorem terminal_frame_settles_query_witness:
  "reachable exampleSession \<and>
   messages (step 400 (SocketMessage (Some (JObject ((frame ''result'')\<lparr>answer := Some ''You spent 500''\<rparr>))))
     (run [(200, SocketMessage (Some (JObject (frame ''status'')))),
           (300, SocketMessage (Some (JObject ((frame ''intermediate'')\<lparr>results_count := ofSafeInteger 3\<rparr>))))]
        exampleSession)) =
     [\<lparr>msg_id = ''1'', msg_type = assistant, content = initialGreeting,
        timestamp = 0, isProcessing = None\<rparr>,
      \<lparr>msg_id = ''20'', msg_type = user, content = ''hi'', timestamp = 20, isProcessing = None\<rparr>,
      \<lparr>msg_id = ''400'', msg_type = assistant, content = ''You spent 500'',
        timestamp = 400, isProcessing = None\<rparr>]"
proof -
  let ?es = "[(200, SocketMessage (Some (JObject (frame ''status'')))),
           (300, SocketMessage (Some (JObject ((frame ''intermediate'')\<lparr>results_count := ofSafeInteger 3\<rparr>))))]"
  let ?d = "(frame ''result'')\<lparr>answer := Some ''You spent 500''\<rparr>"
  have l: "list_all (\<lambda>p. progressFrame (snd p)) ?es" by (simp add: frame_def)
  have k: "frame_type ?d = Some ''result'' \<or> frame_type ?d = Some ''error''"
    by (simp add: frame_def)
  have "messages (step 400 (SocketMessage (Some (JObject ?d))) (run ?es exampleSession)) =
           filter (\<lambda>m. \<not> provisional m) (messages exampleSession) @ [terminalTurn 400 ?d]"
    using terminal_frame_settles_query [OF reachable_exampleSession l k, of 400] by blast
  then show ?thesis using reachable_exampleSession
    by (simp add: exampleSession_eq provisional_def terminalTurn_def resultMessage_def frame_def
        showNat.simps digit_def)
qed

text \<open>
  Claim C4. An intermediate frame removes every turn of role intermediate and appends
  one; so after two intermediate frames in a row the history has exactly one
  intermediate turn, the one of the second frame. A status frame appends a status turn
  and removes nothing.
\<close>

theorem intermediate_replaced_status_accumulates:
  "(frame_type d1 = Some ''intermediate'' \<and> frame_type d2 = Some ''intermediate'' \<longrightarrow>
      messages (step n2 (SocketMessage (Some (JObject d2)))
                 (step n1 (SocketMessage (Some (JObject d1))) s)) =
        filter (\<lambda>m. msg_type m \<noteq> intermediate) (messages s) @ [intermediateTurn n2 d2] \<and>
      filter (\<lambda>m. msg_type m = intermediate)
        (messages (step n2 (SocketMessage (Some (JObject d2)))
                    (step n1 (SocketMessage (Some (JObject d1))) s))) =
        [intermediateTurn n2 d2]) \<and>
   (frame_type d1 = Some ''intermediate'' \<longrightarrow>
      messages (step n1 (SocketMessage (Some (JObject d1))) s) =
        filter (\<lambda>m. msg_type m \<noteq> intermediate) (messages s) @ [intermediateTurn n1 d1]) \<and>
   (frame_type d = Some ''status'' \<longrightarrow>
      messages (step n (SocketMessage (Some (JObject d))) s) = messages s @ [statusTurn n d])"
proof -
  have i: "messages (onmessage n (Some (JObject d)) s) =
        filter (\<lambda>m. msg_type m \<noteq> intermediate) (messages s) @ [intermediateTurn n d]"
    if "frame_type d = Some ''intermediate''" for n d s
  proof -
    have "validFrame (JObject d) = Some (''intermediate'', d)" using that by simp
    then show ?thesis by (simp add: onmessage_def router_intermediate intermediateTurn_def)
  qed
  have t: "msg_type (intermediateTurn n d) = intermediate" for n d
    by (simp add: intermediateTurn_def)
  have st: "messages (onmessage n (Some (JObject d)) s) = messages s @ [statusTurn n d]"
    if "frame_type d = Some ''status''"
  proof -
    have "validFrame (JObject d) = Some (''status'', d)" using that by simp
    then show ?thesis by (simp add: onmessage_def router_status statusTurn_def)
  qed
  show ?thesis using st by (simp add: i t)
qed

theorem intermediate_replaced_status_accumulates_witness:
  "map msg_type (messages (run
      [(200, SocketMessage (Some (JObject (frame ''status'')))),
       (250, SocketMessage (Some (JObject (frame ''status'')))),
       (300, SocketMessage (Some (JObject ((frame ''intermediate'')\<lparr>results_count := ofSafeInteger 3\<rparr>)))),
       (400, SocketMessage (Some (JObject ((frame ''intermediate'')\<lparr>results_count := ofSafeInteger 7\<rparr>))))]
      exampleSession)) = [assistant, user, status, status, intermediate] \<and>
   content (last (messages (run
      [(200, SocketMessage (Some (JObject (frame ''status'')))),
       (250, SocketMessage (Some (JObject (frame ''status'')))),
       (300, SocketMessage (Some (JObject ((frame ''intermediate'')\<lparr>results_count := ofSafeInteger 3\<rparr>)))),
       (400, SocketMessage (Some (JObject ((frame ''intermediate'')\<lparr>results_count := ofSafeInteger 7\<rparr>))))]
      exampleSession))) = ''Found 7 matching receipts''"
proof -
  let ?st = "frame ''status''"
  let ?i1 = "(frame ''intermediate'')\<lparr>results_count := ofSafeInteger 3\<rparr>"
  let ?i2 = "(frame ''intermediate'')\<lparr>results_count := ofSafeInteger 7\<rparr>"
  let ?s1 = "step 200 (SocketMessage (Some (JObject ?st))) exampleSession"
  let ?s2 = "step 250 (SocketMessage (Some (JObject ?st))) ?s1"
  let ?s4 = "step 400 (SocketMessage (Some (JObject ?i2)))
               (step 300 (SocketMessage (Some (JObject ?i1))) ?s2)"
  have k: "frame_type ?st = Some ''status''"
    "frame_type ?i1 = Some ''intermediate'' \<and> frame_type ?i2 = Some ''intermediate''"
    by (simp_all add: frame_def)
  have m1: "messages ?s1 = messages exampleSession @ [statusTurn 200 ?st]"
    using intermediate_replaced_status_accumulates [of ?i1 ?i2 400 300 exampleSession ?st 200] k
    by blast
  have m2: "messages ?s2 = messages ?s1 @ [statusTurn 250 ?st]"
    using intermediate_replaced_status_accumulates [of ?i1 ?i2 400 300 ?s1 ?st 250] k
    by blast
  have m4: "messages ?s4 =
      filter (\<lambda>m. msg_type m \<noteq> intermediate) (messages ?s2) @ [intermediateTurn 400 ?i2]"
    using intermediate_replaced_status_accumulates [of ?i1 ?i2 400 300 ?s2 ?st 200] k
    by blast
  have "messages ?s4 =
      [\<lparr>msg_id = ''1'', msg_type = assistant, content = initialGreeting,
         timestamp = 0, isProcessing = None\<rparr>,
       \<lparr>msg_id = ''20'', msg_type = user, content = ''hi'', timestamp = 20, isProcessing = None\<rparr>,
       statusTurn 200 ?st, statusTurn 250 ?st, intermediateTurn 400 ?i2]"
    unfolding m4 m2 m1
    by (simp add: exampleSession_eq statusTurn_def intermediateTurn_def)
  then show ?thesis
    by (simp add: statusTurn_def intermediateTurn_def intermediateMessage_def frame_def
        ofSafeInteger_def maxSafeInteger_def showInt_def showNat.simps digit_def)
qed

text \<open>
  Claim C8. A frame that does not parse, a parsed value that fails the validation
  (not an object, or no \<open>type\<close>), and an object of an unknown kind all leave the history,
  the loading flag and the timers as they were: the state changes in its console and
  its notifications only. The console gets new lines, one of them a warning or an
  error. The handler is a total function: it always returns a state.
\<close>

theorem dropped_frame_changes_nothing:
  assumes "droppedFrame parsed"
  shows "messages (step now (SocketMessage parsed) s) = messages s \<and>
         isLoading (step now (SocketMessage parsed) s) = isLoading s \<and>
         timers (step now (SocketMessage parsed) s) = timers s \<and>
         loadingTimeoutRef (step now (SocketMessage parsed) s) = loadingTimeoutRef s \<and>
         (step now (SocketMessage parsed) s)\<lparr>console := console s, toasts := toasts s\<rparr> = s \<and>
         (\<exists>new. console (step now (SocketMessage parsed) s) = console s @ new \<and>
                (\<exists>l \<in> set new. fst l = LogWarn \<or> fst l = LogError))"
  using assms
proof (cases rule: droppedFrame_cases)
  case unparseable
  then show ?thesis by (simp add: onmessage_def prims)
next
  case (invalid data)
  then show ?thesis by (simp add: onmessage_def router_invalid)
next
  case (unknown data t d)
  then show ?thesis by (simp add: onmessage_def router_unknown)
qed

theorem dropped_frame_changes_nothing_witness:
  "droppedFrame None \<and> droppedFrame (Some JNull) \<and> droppedFrame (Some JArray) \<and>
   droppedFrame (Some (JObject ((frame ''x'')\<lparr>frame_type := None\<rparr>))) \<and>
   droppedFrame (Some (JObject (frame ''ping''))) \<and>
   messages (step 200 (SocketMessage None) exampleSession) = messages exampleSession \<and>
   isLoading (step 200 (SocketMessage (Some JNull)) exampleSession) \<and>
   length (timers (step 200 (SocketMessage (Some (JObject (frame ''ping'')))) exampleSession)) = 2"
proof -
  have d: "droppedFrame None" "droppedFrame (Some JNull)" "droppedFrame (Some JArray)"
    "droppedFrame (Some (JObject ((frame ''x'')\<lparr>frame_type := None\<rparr>)))"
    "droppedFrame (Some (JObject (frame ''ping'')))"
    by (simp_all add: droppedFrame_def frame_def knownKinds_def)
  have "messages (step 200 (SocketMessage None) exampleSession) = messages exampleSession"
    using dropped_frame_changes_nothing [OF d(1), of 200 exampleSession] by blast
  moreover have "isLoading (step 200 (SocketMessage (Some JNull)) exampleSession) =
      isLoading exampleSession"
    using dropped_frame_changes_nothing [OF d(2), of 200 exampleSession] by blast
  moreover have "timers (step 200 (SocketMessage (Some (JObject (frame ''ping'')))) exampleSession) =
      timers exampleSession"
    using dropped_frame_changes_nothing [OF d(5), of 200 exampleSession] by blast
  ultimately show ?thesis using d by (simp add: exampleSession_eq)
qed

text \<open>
  Claim C9. In every state the component reaches, a turn carries \<open>isProcessing = true\<close>
  exactly when its role is status or intermediate, so filtering on the flag removes
  exactly the provisional turns. The first history has the property and every event
  preserves it.
\<close>

theorem processing_flag_marks_provisional:
  "(reachable s \<longrightarrow>
      (\<forall>m \<in> set (messages s).
         (isProcessing m = Some True) = (msg_type m = status \<or> msg_type m = intermediate)) \<and>
      filter (\<lambda>msg. \<not> processing msg) (messages s) =
        filter (\<lambda>m. msg_type m \<noteq> status \<and> msg_type m \<noteq> intermediate) (messages s)) \<and>
   flagged (messages (mount (initialState auth uid t0))) \<and>
   (flagged (messages s) \<longrightarrow> flagged (messages (step now e s)))"
proof -
  have a: "(\<forall>m \<in> set (messages s).
         (isProcessing m = Some True) = (msg_type m = status \<or> msg_type m = intermediate)) \<and>
      filter (\<lambda>msg. \<not> processing msg) (messages s) =
        filter (\<lambda>m. msg_type m \<noteq> status \<and> msg_type m \<noteq> intermediate) (messages s)"
    if "reachable s"
  proof -
    have f: "flagged (messages s)" using reachable_inv [OF that] by (simp add: sessionInv_def)
    then have "\<forall>m \<in> set (messages s).
         (isProcessing m = Some True) = (msg_type m = status \<or> msg_type m = intermediate)"
      by (simp add: flagged_def list_all_iff processing_def provisional_def)
    then show ?thesis using flagged_settled_eq [OF f] by (simp add: provisional_def)
  qed
  have b: "flagged (messages (mount (initialState auth uid t0)))"
    using inv_init [of auth uid t0] by (simp add: sessionInv_def)
  show ?thesis using a b flagged_step by blast
qed

theorem processing_flag_marks_provisional_witness:
  "reachable (step 130 (TimerFires 2) exampleSession) \<and>
   map (\<lambda>m. (msg_type m, isProcessing m)) (messages (step 130 (TimerFires 2) exampleSession)) =
     [(assistant, None), (user, None), (status, Some True)] \<and>
   filter (\<lambda>msg. \<not> processing msg) (messages (step 130 (TimerFires 2) exampleSession)) =
     messages exampleSession"
proof -
  let ?s = "step 130 (TimerFires 2) exampleSession"
  have r: "reachable ?s" using reachable_exampleSession by (rule reach_step)
  have m: "messages ?s = messages exampleSession @
      [\<lparr>msg_id = ''131'', msg_type = status, content = ''Processing your query...'',
        timestamp = 130, isProcessing = Some True\<rparr>]"
    by (simp add: exampleSession_eq fireTimer_def clearTimeout_def processingStatusCallback_def
        setMessages_def showNat.simps digit_def)
  have "filter (\<lambda>msg. \<not> processing msg) (messages ?s) =
        filter (\<lambda>m. msg_type m \<noteq> status \<and> msg_type m \<noteq> intermediate) (messages ?s)"
    using processing_flag_marks_provisional [of ?s True "''u''" 0 130 ClickSend] r by blast
  then show ?thesis using r unfolding m by (simp add: exampleSession_eq)
qed

section \<open>The query timeout\<close>

text \<open>
  Claim C10. Let a query timeout be pending in a state the component reaches. A close
  of the socket turns the loading flag off and removes the turns marked as processing,
  and the timeout is still pending afterwards. It stays pending through any events
  other than a submit, a result or error frame, and its own firing; and when it then
  fires, at or after its due time, it appends the "Request timed out" assistant turn.
\<close>

theorem close_leaves_query_timeout_pending:
  assumes "reachable s"
    and "x \<in> set (timers s)" and "callback x = LoadingTimeout"
    and "list_all (\<lambda>p. quiet (timer_id x) (snd p)) es"
    and "due x \<le> n"
  shows "\<not> isLoading (step now (SocketClose code) s) \<and>
         messages (step now (SocketClose code) s) =
           filter (\<lambda>msg. \<not> processing msg) (messages s) \<and>
         loadingTimeoutRef (step now (SocketClose code) s) = loadingTimeoutRef s \<and>
         x \<in> set (timers (step now (SocketClose code) s)) \<and>
         x \<in> set (timers (run es (step now (SocketClose code) s))) \<and>
         messages (step n (TimerFires (timer_id x)) (run es (step now (SocketClose code) s))) =
           filter (\<lambda>msg. \<not> processing msg) (messages (run es (step now (SocketClose code) s))) @
           [timeoutTurn n]"
proof -
  let ?c = "onclose now code (s\<lparr>websocketRef := Some CLOSED\<rparr>)"
  have c: "\<not> isLoading ?c \<and> messages ?c = filter (\<lambda>msg. \<not> processing msg) (messages s) \<and>
      loadingTimeoutRef ?c = loadingTimeoutRef s \<and> x \<in> set (timers ?c)"
    using assms(2)
    by (cases "code \<noteq> 1000 \<and> reconnectAttempts s < maxReconnectAttempts")
      (auto simp add: onclose_retry onclose_no_retry)
  then have p: "x \<in> set (timers (run es ?c))"
    using assms(4) by (simp add: quiet_run_keeps_timer)
  have "reachable (step now (SocketClose code) s)" using assms(1) by (rule reach_step)
  then have "reachable (run es ?c)" by (simp add: reachable_run)
  then have "distinct (map timer_id (timers (run es ?c)))"
    using reachable_inv by (auto simp add: sessionInv_def timersOk_def)
  then have "fireTimer n (timer_id x) (run es ?c) =
      loadingTimeoutCallback n (clearTimeout (timer_id x) (run es ?c))"
    using p assms(3) assms(5) by (rule fire_loading)
  then have "messages (fireTimer n (timer_id x) (run es ?c)) =
      filter (\<lambda>msg. \<not> processing msg) (messages (run es ?c)) @ [timeoutTurn n]"
    by (simp add: loadingTimeout_fired)
  then show ?thesis using c p by simp
qed

theorem close_leaves_query_timeout_pending_witness:
  "reachable exampleSession \<and>
   \<lparr>timer_id = 1, due = 30020, callback = LoadingTimeout\<rparr> \<in> set (timers exampleSession) \<and>
   \<lparr>timer_id = 1, due = 30020, callback = LoadingTimeout\<rparr>
     \<in> set (timers (step 1000 (SocketClose 1006) exampleSession)) \<and>
   \<not> isLoading (step 1000 (SocketClose 1006) exampleSession) \<and>
   messages (step 30020 (TimerFires 1)
      (run [(2000, TimerFires 3), (2100, SocketOpen)]
         (step 1000 (SocketClose 1006) exampleSession))) =
     filter (\<lambda>msg. \<not> processing msg)
       (messages (run [(2000, TimerFires 3), (2100, SocketOpen)]
          (step 1000 (SocketClose 1006) exampleSession))) @
     [\<lparr>msg_id = ''30020'', msg_type = assistant,
        content = ''Request timed out. The server might be busy. Please try again.'',
        timestamp = 30020, isProcessing = None\<rparr>]"
proof -
  let ?x = "\<lparr>timer_id = 1, due = 30020, callback = LoadingTimeout\<rparr>"
  let ?es = "[(2000, TimerFires 3), (2100, SocketOpen)]"
  have m: "?x \<in> set (timers exampleSession)" by (simp add: exampleSession_eq)
  have c: "callback ?x = LoadingTimeout" by simp
  have q: "list_all (\<lambda>p. quiet (timer_id ?x) (snd p)) ?es" by simp
  have d: "due ?x \<le> 30020" by simp
  note th = close_leaves_query_timeout_pending
              [OF reachable_exampleSession m c q d, of 1000 1006]
  show ?thesis using th m reachable_exampleSession
    by (simp add: timeoutTurn_def timeoutText_def showNat.simps digit_def)
qed

text \<open>
  Claim C5. In a state the component reaches: a submit that the send button allows
  turns the loading flag on and leaves exactly one query timeout pending, due 30000 ms
  later. A pending query timeout stays pending through any events other than a submit,
  a result or error frame, and its own firing. It does nothing when fired before it is
  due; fired at or after its due time it turns the loading flag off and appends one
  "Request timed out" turn, after which no query timeout is pending and firing the same
  timer again changes nothing. A result or error frame leaves no query timeout pending,
  so firing the timer after it changes nothing either.
\<close>

theorem query_timeout_fires_once:
  assumes "reachable s"
  shows "(\<not> sendDisabled s \<longrightarrow>
            isLoading (step now ClickSend s) \<and>
            filter isLoadingTimer (timers (step now ClickSend s)) =
              [\<lparr>timer_id = nextTimerId s, due = now + 30000, callback = LoadingTimeout\<rparr>]) \<and>
         (\<forall>x \<in> set (timers s). isLoadingTimer x \<longrightarrow>
            (list_all (\<lambda>p. quiet (timer_id x) (snd p)) es \<longrightarrow> x \<in> set (timers (run es s))) \<and>
            (n < due x \<longrightarrow> step n (TimerFires (timer_id x)) s = s) \<and>
            (due x \<le> n \<longrightarrow>
               messages (step n (TimerFires (timer_id x)) s) =
                 filter (\<lambda>msg. \<not> processing msg) (messages s) @ [timeoutTurn n] \<and>
               \<not> isLoading (step n (TimerFires (timer_id x)) s) \<and>
               filter isLoadingTimer (timers (step n (TimerFires (timer_id x)) s)) = [] \<and>
               step n' (TimerFires (timer_id x)) (step n (TimerFires (timer_id x)) s) =
                 step n (TimerFires (timer_id x)) s) \<and>
            (frame_type d = Some ''result'' \<or> frame_type d = Some ''error'' \<longrightarrow>
               filter isLoadingTimer (timers (step n (SocketMessage (Some (JObject d))) s)) = [] \<and>
               step n' (TimerFires (timer_id x)) (step n (SocketMessage (Some (JObject d))) s) =
                 step n (SocketMessage (Some (JObject d))) s))"
proof -
  have inv: "sessionInv s" using assms by (rule reachable_inv)
  then have ok: "timersOk s" by (simp add: sessionInv_def)
  then have di: "distinct (map timer_id (timers s))" by (simp add: timersOk_def)
  have A: "isLoading (handleSendMessage now s) \<and>
      filter isLoadingTimer (timers (handleSendMessage now s)) =
        [\<lparr>timer_id = nextTimerId s, due = now + 30000, callback = LoadingTimeout\<rparr>]"
    if "\<not> sendDisabled s"
  proof -
    have g: "trim (inputValue s) \<noteq> []" "connectionStatus s = connected" "isUserAuthenticated s"
      using that by (auto simp add: sendDisabled_def)
    then have o: "websocketRef s = Some OPEN" using inv by (simp add: sessionInv_def)
    show ?thesis
      by (simp add: send_open [OF g o] timersOk_cancelled_none [OF ok] isLoadingTimer_def)
  qed
  have B: "fireTimer n (timer_id x) s = s" if "x \<in> set (timers s)" "n < due x" for x
    using di that by (rule fire_early)
  have C: "messages (fireTimer n (timer_id x) s) =
        filter (\<lambda>msg. \<not> processing msg) (messages s) @ [timeoutTurn n] \<and>
      \<not> isLoading (fireTimer n (timer_id x) s) \<and>
      filter isLoadingTimer (timers (fireTimer n (timer_id x) s)) = [] \<and>
      fireTimer n' (timer_id x) (fireTimer n (timer_id x) s) = fireTimer n (timer_id x) s"
    if x: "x \<in> set (timers s)" "isLoadingTimer x" and d: "due x \<le> n" for x
  proof -
    have c: "callback x = LoadingTimeout" using x(2) by (simp add: isLoadingTimer_def)
    have f: "fireTimer n (timer_id x) s = loadingTimeoutCallback n (clearTimeout (timer_id x) s)"
      using di x(1) c d by (rule fire_loading)
    have "timer_id x \<notin> timer_id ` set (timers (fireTimer n (timer_id x) s))"
      by (auto simp add: f loadingTimeout_fired)
    then have "fireTimer n' (timer_id x) (fireTimer n (timer_id x) s) = fireTimer n (timer_id x) s"
      by (rule fire_absent)
    then show ?thesis using timersOk_fired_none [OF ok x]
      by (simp add: f loadingTimeout_fired)
  qed
  have D: "filter isLoadingTimer (timers (onmessage n (Some (JObject d)) s)) = [] \<and>
      fireTimer n' (timer_id x) (onmessage n (Some (JObject d)) s) =
        onmessage n (Some (JObject d)) s"
    if x: "x \<in> set (timers s)" "isLoadingTimer x"
      and k: "frame_type d = Some ''result'' \<or> frame_type d = Some ''error''" for x
  proof -
    note t = terminal_step [OF k, of n s]
    have r: "loadingTimeoutRef s = Some (timer_id x)"
      using ok x by (auto simp add: timersOk_def list_all_iff)
    have "timer_id x \<notin> timer_id ` set (timers (onmessage n (Some (JObject d)) s))"
      by (auto simp add: t(3) r cancelled_member)
    then have "fireTimer n' (timer_id x) (onmessage n (Some (JObject d)) s) =
        onmessage n (Some (JObject d)) s"
      by (rule fire_absent)
    then show ?thesis using timersOk_cancelled_none [OF ok] by (simp add: t(3))
  qed
  have E: "x \<in> set (timers (run es s))"
    if "x \<in> set (timers s)" "list_all (\<lambda>p. quiet (timer_id x) (snd p)) es" for x
    using that by (rule quiet_run_keeps_timer)
  show ?thesis using A B C D E by simp
qed

theorem query_timeout_fires_once_witness:
  "reachable exampleStart \<and>
   filter isLoadingTimer (timers exampleSession) =
     [\<lparr>timer_id = 1, due = 30020, callback = LoadingTimeout\<rparr>] \<and>
   step 30019 (TimerFires 1) exampleSession = exampleSession \<and>
   messages (step 30020 (TimerFires 1) exampleSession) =
     messages exampleSession @
     [\<lparr>msg_id = ''30020'', msg_type = assistant,
        content = ''Request timed out. The server might be busy. Please try again.'',
        timestamp = 30020, isProcessing = None\<rparr>] \<and>
   step 30021 (TimerFires 1) (step 30020 (TimerFires 1) exampleSession) =
     step 30020 (TimerFires 1) exampleSession \<and>
   step 30021 (TimerFires 1)
     (step 500 (SocketMessage (Some (JObject (frame ''result'')))) exampleSession) =
     step 500 (SocketMessage (Some (JObject (frame ''result'')))) exampleSession"
proof -
  let ?x = "\<lparr>timer_id = 1, due = 30020, callback = LoadingTimeout\<rparr>"
  let ?p = "run [(5, SocketOpen), (10, ChangeInput ''hi'')] exampleStart"
  have r0: "reachable exampleStart" unfolding exampleStart_def by (rule reach_init)
  then have rp: "reachable ?p" by (rule reachable_run)
  have p: "\<not> sendDisabled ?p \<and> nextTimerId ?p = 1"
    by (simp add: exampleStart_eq onopen_def prims inputDisabled_def sendDisabled_def
        trim_def isWhitespace_def)
  have e: "step 20 ClickSend ?p = exampleSession" by (simp add: exampleSession_def)
  have a: "filter isLoadingTimer (timers exampleSession) = [?x]"
    using query_timeout_fires_once [OF rp, of 20] p unfolding e by simp
  have m: "?x \<in> set (timers exampleSession) \<and> isLoadingTimer ?x"
    by (simp add: exampleSession_eq isLoadingTimer_def)
  have k: "frame_type (frame ''result'') = Some ''result''" by (simp add: frame_def)
  note th = query_timeout_fires_once [OF reachable_exampleSession, of 20 "[]" _ 30021 "frame ''result''"]
  have b: "step 30019 (TimerFires 1) exampleSession = exampleSession"
    using th [of 30019] m by force
  have c: "messages (step 30020 (TimerFires 1) exampleSession) =
       filter (\<lambda>msg. \<not> processing msg) (messages exampleSession) @ [timeoutTurn 30020] \<and>
     step 30021 (TimerFires 1) (step 30020 (TimerFires 1) exampleSession) =
       step 30020 (TimerFires 1) exampleSession"
    using th [of 30020] m by force
  have d: "step 30021 (TimerFires 1)
     (step 500 (SocketMessage (Some (JObject (frame ''result'')))) exampleSession) =
     step 500 (SocketMessage (Some (JObject (frame ''result'')))) exampleSession"
    using th [of 500] m k by force
  have f: "filter (\<lambda>msg. \<not> processing msg) (messages exampleSession) = messages exampleSession"
    by (simp add: exampleSession_eq processing_def)
  show ?thesis using r0 a b c d unfolding f
    by (simp add: timeoutTurn_def timeoutText_def showNat.simps digit_def)
qed

section \<open>The text of an intermediate turn\<close>

text \<open>
  Claim C7, as the code has it. An intermediate frame appends one intermediate turn.
  When \<open>results_count\<close> is present and not zero, the text of the turn is "Found N
  matching receipts", with N as the run time prints the number: the decimal text for
  an integer count up to \<open>Number.MAX_SAFE_INTEGER\<close> in magnitude. When
  \<open>results_count\<close> is absent or zero, the text is the frame's \<open>message\<close> if that is
  present and not empty, and "Processing your request..." otherwise. Properties the
  interface does not name have no effect on the resulting state.
\<close>

theorem intermediate_turn_text:
  assumes "frame_type d = Some ''intermediate''"
  shows "last (messages (step now (SocketMessage (Some (JObject d))) s)) = intermediateTurn now d \<and>
         msg_type (intermediateTurn now d) = intermediate \<and>
         (\<forall>t. results_count d = Some (JSNonZero t) \<longrightarrow>
            content (intermediateTurn now d) = ''Found '' @ t @ '' matching receipts'') \<and>
         (\<forall>n. n \<noteq> 0 \<and> \<bar>n\<bar> \<le> maxSafeInteger \<and> results_count d = ofSafeInteger n \<longrightarrow>
            content (intermediateTurn now d) = ''Found '' @ showInt n @ '' matching receipts'') \<and>
         (results_count d = None \<or> results_count d = Some JSZero \<longrightarrow>
            (\<forall>m. message d = Some m \<and> m \<noteq> [] \<longrightarrow> content (intermediateTurn now d) = m) \<and>
            (message d = None \<or> message d = Some [] \<longrightarrow>
               content (intermediateTurn now d) = ''Processing your request...'')) \<and>
         step now (SocketMessage (Some (JObject (d\<lparr>extra := x\<rparr>)))) s =
           step now (SocketMessage (Some (JObject d))) s"
proof -
  have e: "frame_type (d\<lparr>extra := x\<rparr>) = Some ''intermediate''" using assms by simp
  have i: "intermediateTurn now (d\<lparr>extra := x\<rparr>) = intermediateTurn now d"
    by (simp add: intermediateTurn_def intermediateMessage_def
        split: option.splits JSNumber.splits)
  have x: "onmessage now (Some (JObject (d\<lparr>extra := x\<rparr>))) s = onmessage now (Some (JObject d)) s"
    by (simp add: intermediate_step [OF e] intermediate_step [OF assms] i)
  have l: "last (messages (onmessage now (Some (JObject d)) s)) = intermediateTurn now d"
    by (simp add: intermediate_step [OF assms])
  have t: "msg_type (intermediateTurn now d) = intermediate"
    by (simp add: intermediateTurn_def)
  have f: "content (intermediateTurn now d) = ''Found '' @ t @ '' matching receipts''"
    if "results_count d = Some (JSNonZero t)" for t
    using that by (simp add: intermediateTurn_def intermediateMessage_def)
  have g: "content (intermediateTurn now d) = ''Found '' @ showInt n @ '' matching receipts''"
    if "n \<noteq> 0" "\<bar>n\<bar> \<le> maxSafeInteger" "results_count d = ofSafeInteger n" for n
  proof -
    have "results_count d = Some (JSNonZero (showInt n))"
      using that by (simp add: ofSafeInteger_def)
    then show ?thesis by (rule f)
  qed
  have m: "content (intermediateTurn now d) = orElse (message d) ''Processing your request...''"
    if "results_count d = None \<or> results_count d = Some JSZero"
    using that by (auto simp add: intermediateTurn_def intermediateMessage_def)
  have h: "(\<forall>m. message d = Some m \<and> m \<noteq> [] \<longrightarrow> content (intermediateTurn now d) = m) \<and>
      (message d = None \<or> message d = Some [] \<longrightarrow>
         content (intermediateTurn now d) = ''Processing your request...'')"
    if "results_count d = None \<or> results_count d = Some JSZero"
    by (auto simp add: m [OF that])
  show ?thesis using x l t f g h by simp
qed

theorem intermediate_turn_text_witness:
  "content (last (messages (step 300 (SocketMessage (Some (JObject
      ((frame ''intermediate'')\<lparr>results_count := ofSafeInteger 12,
                                  extra := [(''data'', ''{}'')]\<rparr>))))
      exampleSession))) = ''Found 12 matching receipts'' \<and>
   content (last (messages (step 300 (SocketMessage (Some (JObject
      ((frame ''intermediate'')\<lparr>results_count := Some (JSNonZero ''1e+21'')\<rparr>))))
      exampleSession))) = ''Found 1e+21 matching receipts'' \<and>
   content (last (messages (step 300 (SocketMessage (Some (JObject
      ((frame ''intermediate'')\<lparr>message := Some ''Searching''\<rparr>))))
      exampleSession))) = ''Searching''"
proof -
  let ?a = "(frame ''intermediate'')\<lparr>results_count := ofSafeInteger 12,
                                       extra := [(''data'', ''{}'')]\<rparr>"
  let ?b = "(frame ''intermediate'')\<lparr>message := Some ''Searching''\<rparr>"
  let ?c = "(frame ''intermediate'')\<lparr>results_count := Some (JSNonZero ''1e+21'')\<rparr>"
  have ka: "frame_type ?a = Some ''intermediate''" and kb: "frame_type ?b = Some ''intermediate''"
    and kc: "frame_type ?c = Some ''intermediate''"
    by (simp_all add: frame_def)
  have ra: "(12::int) \<noteq> 0 \<and> \<bar>12::int\<bar> \<le> maxSafeInteger \<and> results_count ?a = ofSafeInteger 12"
    by (simp add: frame_def maxSafeInteger_def)
  have rb: "results_count ?b = None" "message ?b = Some ''Searching'' \<and> ''Searching'' \<noteq> []"
    by (simp_all add: frame_def)
  have rc: "results_count ?c = Some (JSNonZero ''1e+21'')" by (simp add: frame_def)
  have "content (last (messages (step 300 (SocketMessage (Some (JObject ?a))) exampleSession))) =
      ''Found '' @ showInt 12 @ '' matching receipts''"
    using intermediate_turn_text [OF ka, of 300 exampleSession] ra by metis
  moreover have
    "content (last (messages (step 300 (SocketMessage (Some (JObject ?c))) exampleSession))) =
      ''Found '' @ ''1e+21'' @ '' matching receipts''"
    using intermediate_turn_text [OF kc, of 300 exampleSession] rc by metis
  moreover have
    "content (last (messages (step 300 (SocketMessage (Some (JObject ?b))) exampleSession))) =
      ''Searching''"
    using intermediate_turn_text [OF kb, of 300 exampleSession] rb by metis
  ultimately show ?thesis by (simp add: showInt_def showNat.simps digit_def)
qed

text \<open>
  The claim as the specification words it fails on a count of zero, which is present
  and yet not reported; and the generic text is not "Processing...".
\<close>

theorem intermediate_zero_count_counterexample:
  "results_count ((frame ''intermediate'')\<lparr>results_count := ofSafeInteger 0\<rparr>) = Some JSZero \<and>
   content (last (messages (step 300 (SocketMessage (Some (JObject
      ((frame ''intermediate'')\<lparr>results_count := ofSafeInteger 0\<rparr>)))) exampleSession))) =
     ''Processing your request...'' \<and>
   ''Processing your request...'' \<noteq> ''Found 0 matching receipts'' \<and>
   ''Processing your request...'' \<noteq> ''Processing...''"
  by (simp add: frame_def onmessage_def router_intermediate intermediateMessage_def
      ofSafeInteger_def maxSafeInteger_def)

section \<open>Submitting while a query is pending\<close>



end
